theory Spec2Isabelle
  imports Main
begin

section \<open>The hardware database generator \<^verbatim>\<open>data/hwdb/generate_hwdb.py\<close>\<close>

text \<open>
  The script reads a list of text files, scans them line by line and fills three SQLite
  tables of a fresh file \<^verbatim>\<open>hw.db\<close>: \<^verbatim>\<open>products\<close>, \<^verbatim>\<open>models\<close> and \<^verbatim>\<open>key_len\<close>.

  Python strings are sequences of code points and \<^verbatim>\<open>len\<close> counts code points. They are
  modelled by \<^typ>\<open>string\<close>, one \<^typ>\<open>char\<close> per code point, so the model covers the texts
  whose code points are below 256. Python integers are \<^typ>\<open>int\<close>. The input files are
  given by the strings that \<^verbatim>\<open>f.read()\<close> returns, in the order of the command line.
\<close>

subsection \<open>The string methods the script calls\<close>

text \<open>\<^verbatim>\<open>str.isspace\<close> on one code point below 256: U+0009 to U+000D, U+001C to U+0020,
  U+0085 and U+00A0.\<close>

definition isspace :: "char \<Rightarrow> bool" where
  "isspace c = (c \<in> set [CHR 0x09, CHR 0x0A, CHR 0x0B, CHR 0x0C, CHR 0x0D,
      CHR 0x1C, CHR 0x1D, CHR 0x1E, CHR 0x1F, CHR 0x20, CHR 0x85, CHR 0xA0])"

text \<open>\<^verbatim>\<open>s.strip()\<close>: leading and trailing whitespace removed.\<close>

definition strip :: "string \<Rightarrow> string" where
  "strip s = rev (dropWhile isspace (rev (dropWhile isspace s)))"

text \<open>\<^verbatim>\<open>s.split(c)\<close> for a separator of one character: never empty, one more part than
  there are separators.\<close>

fun split :: "char \<Rightarrow> string \<Rightarrow> string list" where
  "split c [] = [[]]"
| "split c (x # xs) =
     (let ws = split c xs in if x = c then [] # ws else (x # hd ws) # tl ws)"

text \<open>\<^verbatim>\<open>s.split(c, 1)\<close>: at most one split, at the first separator.\<close>

definition split1 :: "char \<Rightarrow> string \<Rightarrow> string list" where
  "split1 c s =
     (if c \<in> set s then [takeWhile (\<lambda>x. x \<noteq> c) s, tl (dropWhile (\<lambda>x. x \<noteq> c) s)] else [s])"

definition startswith :: "string \<Rightarrow> string \<Rightarrow> bool" where
  "startswith s p = (take (length p) s = p)"

definition endswith :: "string \<Rightarrow> string \<Rightarrow> bool" where
  "endswith s p = (length p \<le> length s \<and> drop (length s - length p) s = p)"

subsection \<open>The SQLite store\<close>

text \<open>
  The exceptions that end a run: the three of the scan and of SQLite, and the exit of
  \<^verbatim>\<open>argparse\<close> with its status.

  A table with a \<^verbatim>\<open>key TEXT PRIMARY KEY\<close> column and a value column is the list of its
  rows in insertion order. A database file holds each of the three tables or not
  (\<^const>\<open>None\<close>: the table does not exist).
\<close>

datatype error = ValueError | IntegrityError | OperationalError | SystemExit int

type_synonym 'v table = "(string \<times> 'v) list"

record database =
  products :: "string table option"
  models :: "string table option"
  key_len :: "int table option"

text \<open>\<^verbatim>\<open>CREATE TABLE t (...)\<close> fails when the table exists.\<close>

definition create_table :: "'v table option \<Rightarrow> error + 'v table option" where
  "create_table t = (case t of None \<Rightarrow> Inr (Some []) | Some rows \<Rightarrow> Inl OperationalError)"

text \<open>\<^verbatim>\<open>INSERT INTO t (key, value) VALUES (?, ?)\<close> fails when the table does not exist, and
  with the primary key's uniqueness constraint when a row with the key exists.\<close>

definition insert_row :: "string \<Rightarrow> 'v \<Rightarrow> 'v table option \<Rightarrow> error + 'v table option" where
  "insert_row k v t =
     (case t of
        None \<Rightarrow> Inl OperationalError
      | Some rows \<Rightarrow>
          if map_of rows k = None then Inr (Some (rows @ [(k, v)])) else Inl IntegrityError)"

definition create_products :: "database \<Rightarrow> error + database" where
  "create_products d =
     (case create_table (products d) of Inl e \<Rightarrow> Inl e | Inr t \<Rightarrow> Inr (d\<lparr>products := t\<rparr>))"

definition create_models :: "database \<Rightarrow> error + database" where
  "create_models d =
     (case create_table (models d) of Inl e \<Rightarrow> Inl e | Inr t \<Rightarrow> Inr (d\<lparr>models := t\<rparr>))"

definition create_key_len :: "database \<Rightarrow> error + database" where
  "create_key_len d =
     (case create_table (key_len d) of Inl e \<Rightarrow> Inl e | Inr t \<Rightarrow> Inr (d\<lparr>key_len := t\<rparr>))"

definition insert_products :: "string \<Rightarrow> string \<Rightarrow> database \<Rightarrow> error + database" where
  "insert_products k v d =
     (case insert_row k v (products d) of Inl e \<Rightarrow> Inl e | Inr t \<Rightarrow> Inr (d\<lparr>products := t\<rparr>))"

definition insert_models :: "string \<Rightarrow> string \<Rightarrow> database \<Rightarrow> error + database" where
  "insert_models k v d =
     (case insert_row k v (models d) of Inl e \<Rightarrow> Inl e | Inr t \<Rightarrow> Inr (d\<lparr>models := t\<rparr>))"

definition insert_key_len :: "string \<Rightarrow> int \<Rightarrow> database \<Rightarrow> error + database" where
  "insert_key_len k v d =
     (case insert_row k v (key_len d) of Inl e \<Rightarrow> Inl e | Inr t \<Rightarrow> Inr (d\<lparr>key_len := t\<rparr>))"

text \<open>The file \<^verbatim>\<open>hw.db\<close> of the output directory is \<^const>\<open>None\<close> when it does not exist.
  \<^verbatim>\<open>os.remove(db_filename) if os.path.exists(db_filename) else None\<close> leaves no file;
  \<^verbatim>\<open>sqlite3.connect\<close> opens the file that is there, or a new database with no table.\<close>

definition remove_if_exists :: "database option \<Rightarrow> database option" where
  "remove_if_exists f = (case f of None \<Rightarrow> None | Some d \<Rightarrow> None)"

definition connect :: "database option \<Rightarrow> database" where
  "connect f =
     (case f of None \<Rightarrow> \<lparr>products = None, models = None, key_len = None\<rparr> | Some d \<Rightarrow> d)"

subsection \<open>The scan\<close>

text \<open>The variables of the script: the open database, the two bounds and the current key.\<close>

record state =
  db :: database
  key_len_min :: int
  key_len_max :: int
  key :: string

text \<open>Line 31: the lines of a file that are not blank and do not start with \<^verbatim>\<open>#\<close>
  (tested before trimming), each trimmed.\<close>

definition lines_of :: "string \<Rightarrow> string list" where
  "lines_of contents =
     map strip (filter (\<lambda>line. strip line \<noteq> [] \<and> \<not> startswith line ''#'')
       (split (CHR 0x0A) contents))"

text \<open>Lines 35 to 50: the body of the loop over the lines. Unpacking
  \<^verbatim>\<open>ty, value = line.split("=", 1)\<close> raises \<^verbatim>\<open>ValueError\<close> unless there are two parts.\<close>

definition process_line :: "state \<Rightarrow> string \<Rightarrow> error + state" where
  "process_line st line =
     (if line = [] then Inr st
      else if endswith line ''*'' then
        (let k = hd (split (CHR ''*'') line);
             mn = (if int (length k) < key_len_min st then int (length k) else key_len_min st);
             mx = (if int (length k) > key_len_max st then int (length k) else key_len_max st)
         in Inr (st\<lparr>key := k, key_len_min := mn, key_len_max := mx\<rparr>))
      else if \<not> startswith line ''ID_'' then Inr st
      else
        (case split1 (CHR ''='') line of
           [ty, val] \<Rightarrow>
             (case (if ty = ''ID_PRODUCT_FROM_DATABASE''
                    then insert_products (strip (key st)) (strip val) (db st)
                    else Inr (db st)) of
                Inl e \<Rightarrow> Inl e
              | Inr d \<Rightarrow>
                 (case (if ty = ''ID_MODEL_FROM_DATABASE''
                        then insert_models (strip (key st)) (strip val) d
                        else Inr d) of
                    Inl e \<Rightarrow> Inl e
                  | Inr d' \<Rightarrow> Inr (st\<lparr>db := d'\<rparr>)))
         | _ \<Rightarrow> Inl ValueError))"

fun process_lines :: "state \<Rightarrow> string list \<Rightarrow> error + state" where
  "process_lines st [] = Inr st"
| "process_lines st (line # rest) =
     (case process_line st line of Inl e \<Rightarrow> Inl e | Inr st' \<Rightarrow> process_lines st' rest)"

text \<open>Lines 27 to 50: one file. The key is set to the empty string before its lines.\<close>

definition process_file :: "state \<Rightarrow> string \<Rightarrow> error + state" where
  "process_file st contents = process_lines (st\<lparr>key := []\<rparr>) (lines_of contents)"

fun process_files :: "state \<Rightarrow> string list \<Rightarrow> error + state" where
  "process_files st [] = Inr st"
| "process_files st (contents # rest) =
     (case process_file st contents of Inl e \<Rightarrow> Inl e | Inr st' \<Rightarrow> process_files st' rest)"

text \<open>Lines 19 to 21.\<close>

definition create_tables :: "database \<Rightarrow> error + database" where
  "create_tables d =
     (case create_products d of
        Inl e \<Rightarrow> Inl e
      | Inr d1 \<Rightarrow>
         (case create_models d1 of Inl e \<Rightarrow> Inl e | Inr d2 \<Rightarrow> create_key_len d2))"

text \<open>Lines 52 and 53.\<close>

definition insert_bounds :: "state \<Rightarrow> error + database" where
  "insert_bounds st =
     (case insert_key_len ''min'' (key_len_min st) (db st) of
        Inl e \<Rightarrow> Inl e
      | Inr d \<Rightarrow> insert_key_len ''max'' (key_len_max st) d)"

text \<open>The whole script, from the file \<^verbatim>\<open>hw.db\<close> found in the output directory and the
  contents of the input files to the committed database, or to the exception that ends
  the run. Lines 10 and 11: \<^verbatim>\<open>files\<close> is declared with \<^verbatim>\<open>nargs="+"\<close>, so with no input file
  \<^verbatim>\<open>parse_args\<close> exits with status 2 before anything else is done. The variable \<^verbatim>\<open>key\<close>
  is unbound until the first file is opened and is given the empty string here.\<close>

definition generate :: "database option \<Rightarrow> string list \<Rightarrow> error + database" where
  "generate hw_db files =
     (if files = [] then Inl (SystemExit 2)
      else
        (case create_tables (connect (remove_if_exists hw_db)) of
           Inl e \<Rightarrow> Inl e
         | Inr d \<Rightarrow>
            (case process_files \<lparr>db = d, key_len_min = 2 ^ 32, key_len_max = 0, key = []\<rparr> files of
               Inl e \<Rightarrow> Inl e
             | Inr st \<Rightarrow> insert_bounds st)))"

text \<open>The lines of all files in order, and the lines that line 47 and line 49 take as a
  product line and as a model line: those that start with the attribute's name and
  \<^verbatim>\<open>=\<close>.\<close>

definition all_lines :: "string list \<Rightarrow> string list" where
  "all_lines files = concat (map lines_of files)"

definition product_line :: "string \<Rightarrow> bool" where
  "product_line line = startswith line ''ID_PRODUCT_FROM_DATABASE=''"

definition model_line :: "string \<Rightarrow> bool" where
  "model_line line = startswith line ''ID_MODEL_FROM_DATABASE=''"

text \<open>For a scan without key lines, where every row goes under the empty key: 1 when a
  table has a row with the empty key and 0 when not, and the condition on the lines under
  which no step raises, from tables \<open>ps\<close> and \<open>ms\<close>: no \<^verbatim>\<open>ID_\<close> line lacks its \<^verbatim>\<open>=\<close>, and
  each table gets at most one row with the empty key.\<close>

definition empty_key_count :: "'v table \<Rightarrow> nat" where
  "empty_key_count rows = (if map_of rows [] = None then 0 else 1)"

definition scan_ok :: "string table \<Rightarrow> string table \<Rightarrow> string list \<Rightarrow> bool" where
  "scan_ok ps ms ls =
     (list_all (\<lambda>l. \<not> (startswith l ''ID_'' \<and> CHR ''='' \<notin> set l)) ls \<and>
      empty_key_count ps + length (filter product_line ls) \<le> 1 \<and>
      empty_key_count ms + length (filter model_line ls) \<le> 1)"

subsection \<open>Reading the result\<close>

text \<open>The rows of a table (none when the table does not exist), and the keys stored in the
  two name tables.\<close>

definition rows_of :: "'v table option \<Rightarrow> 'v table" where
  "rows_of t = (case t of None \<Rightarrow> [] | Some rows \<Rightarrow> rows)"

definition stored_keys :: "database \<Rightarrow> string list" where
  "stored_keys d = map fst (rows_of (products d)) @ map fst (rows_of (models d))"

text \<open>The values that line 37 assigns to \<^verbatim>\<open>key\<close> over a list of lines, and over a run.\<close>

definition keys_of_lines :: "string list \<Rightarrow> string list" where
  "keys_of_lines ls =
     map (\<lambda>line. hd (split (CHR ''*'') line)) (filter (\<lambda>line. endswith line ''*'') ls)"

definition observed_keys :: "string list \<Rightarrow> string list" where
  "observed_keys files = concat (map (\<lambda>contents. keys_of_lines (lines_of contents)) files)"

text \<open>The invariant of the scan, for the keys \<open>obs\<close> observed so far: the upper bound is not
  negative, every observed key has a length within the bounds, the current key is empty or
  observed, and every stored key is empty or an observed key trimmed.\<close>

definition bounds_inv :: "string list \<Rightarrow> state \<Rightarrow> bool" where
  "bounds_inv obs st =
     (0 \<le> key_len_max st \<and>
      list_all (\<lambda>k. key_len_min st \<le> int (length k) \<and> int (length k) \<le> key_len_max st) obs \<and>
      (key st = [] \<or> key st \<in> set obs) \<and>
      list_all (\<lambda>k. k = [] \<or> k \<in> set (map strip obs)) (stored_keys (db st)))"

section \<open>Properties\<close>

subsection \<open>Strings and tables\<close>

lemma split_not_Nil: "split c s \<noteq> []"
  by (induction s) (simp_all add: Let_def)

lemma hd_split: "hd (split c s) = takeWhile (\<lambda>x. x \<noteq> c) s"
  by (induction s) (simp_all add: Let_def)

lemma split_append: "split c (xs @ c # ys) = split c xs @ split c ys"
proof (induction xs)
  case Nil
  show ?case by simp
next
  case (Cons x xs)
  show ?case
  proof (cases "x = c")
    case True
    with Cons show ?thesis by simp
  next
    case False
    with Cons split_not_Nil [of c xs] show ?thesis by (simp add: Let_def)
  qed
qed

lemma split_no_sep: "c \<notin> set l \<Longrightarrow> split c l = [l]"
  by (induction l) (auto simp: Let_def)

lemma strip_Nil: "strip [] = []"
  by (simp add: strip_def)

lemma set_strip: "set (strip s) \<subseteq> set s"
proof -
  have "set (dropWhile isspace (rev (dropWhile isspace s))) \<subseteq> set (rev (dropWhile isspace s))"
    by (meson set_dropWhileD subsetI)
  also have "\<dots> \<subseteq> set s"
    using set_dropWhileD [of _ isspace s] by auto
  finally show ?thesis by (simp add: strip_def)
qed

lemma length_strip: "length (strip s) \<le> length s"
proof -
  have "length (strip s) \<le> length (dropWhile isspace s)"
    using length_dropWhile_le [of isspace "rev (dropWhile isspace s)"] by (simp add: strip_def)
  also have "\<dots> \<le> length s" by (rule length_dropWhile_le)
  finally show ?thesis .
qed

lemma endswith_star: "endswith line ''*'' \<longleftrightarrow> line \<noteq> [] \<and> last line = CHR ''*''"
proof (cases line rule: rev_cases)
  case Nil
  then show ?thesis by (simp add: endswith_def)
next
  case (snoc ys y)
  then show ?thesis by (auto simp: endswith_def)
qed

lemma create_tables_fresh:
  "create_tables (connect (remove_if_exists f)) =
     Inr \<lparr>products = Some [], models = Some [], key_len = Some []\<rparr>"
  by (simp add: create_tables_def connect_def remove_if_exists_def create_products_def
      create_models_def create_key_len_def create_table_def split: option.split)

lemma process_line_keyline:
  assumes "endswith line ''*''"
  shows "process_line st line =
     Inr (st\<lparr>key := takeWhile (\<lambda>x. x \<noteq> CHR ''*'') line,
            key_len_min := min (key_len_min st) (int (length (takeWhile (\<lambda>x. x \<noteq> CHR ''*'') line))),
            key_len_max := max (key_len_max st) (int (length (takeWhile (\<lambda>x. x \<noteq> CHR ''*'') line)))\<rparr>)"
proof -
  from assms have "line \<noteq> []" by (simp add: endswith_star)
  with assms show ?thesis
    by (simp add: process_line_def hd_split Let_def min_def max_def)
qed

lemma insert_row_cases:
  "insert_row k v t = Inr t' \<Longrightarrow> \<exists>rows. t = Some rows \<and> map_of rows k = None \<and> t' = Some (rows @ [(k, v)])"
  by (auto simp: insert_row_def split: option.splits if_splits)

lemma insert_row_not_ValueError: "insert_row k v t \<noteq> Inl ValueError"
  by (simp add: insert_row_def split: option.splits)


lemma split1_sep: "c \<notin> set a \<Longrightarrow> split1 c (a @ c # b) = [a, b]"
  by (induction a) (auto simp: split1_def)

lemma split1_none: "c \<notin> set s \<Longrightarrow> split1 c s = [s]"
  by (simp add: split1_def)

lemma process_line_no_eq:
  assumes "\<not> endswith line ''*''" and "startswith line ''ID_''" and "CHR ''='' \<notin> set line"
  shows "process_line st line = Inl ValueError"
proof -
  from assms(2) have "line \<noteq> []" by (auto simp: startswith_def)
  with assms show ?thesis by (simp add: process_line_def split1_none)
qed

lemma process_line_eq_no_ValueError:
  assumes "CHR ''='' \<in> set line"
  shows "process_line st line \<noteq> Inl ValueError"
  using assms insert_row_not_ValueError [of _ _ "products (db st)"]
    insert_row_not_ValueError [of _ _ "models (db st)"]
    insert_row_not_ValueError [of _ _ "models (db st\<lparr>products := _\<rparr>)"]
  by (auto simp: process_line_def split1_def insert_products_def insert_models_def Let_def
      split: sum.splits)

lemma process_line_product:
  assumes "\<not> endswith (''ID_PRODUCT_FROM_DATABASE='' @ v) ''*''"
  shows "process_line st (''ID_PRODUCT_FROM_DATABASE='' @ v) =
     (case insert_products (strip (key st)) (strip v) (db st) of
        Inl e \<Rightarrow> Inl e | Inr d \<Rightarrow> Inr (st\<lparr>db := d\<rparr>))"
proof -
  have "split1 (CHR ''='') (''ID_PRODUCT_FROM_DATABASE'' @ CHR ''='' # v) =
      [''ID_PRODUCT_FROM_DATABASE'', v]"
    by (rule split1_sep) simp
  with assms show ?thesis
    by (simp add: process_line_def startswith_def split: sum.split)
qed

lemma process_line_model:
  assumes "\<not> endswith (''ID_MODEL_FROM_DATABASE='' @ v) ''*''"
  shows "process_line st (''ID_MODEL_FROM_DATABASE='' @ v) =
     (case insert_models (strip (key st)) (strip v) (db st) of
        Inl e \<Rightarrow> Inl e | Inr d \<Rightarrow> Inr (st\<lparr>db := d\<rparr>))"
proof -
  have "split1 (CHR ''='') (''ID_MODEL_FROM_DATABASE'' @ CHR ''='' # v) =
      [''ID_MODEL_FROM_DATABASE'', v]"
    by (rule split1_sep) simp
  with assms show ?thesis
    by (simp add: process_line_def startswith_def split: sum.split)
qed

lemma insert_products_Some:
  "products d = Some rows \<Longrightarrow> insert_products k v d =
     (if map_of rows k = None then Inr (d\<lparr>products := Some (rows @ [(k, v)])\<rparr>)
      else Inl IntegrityError)"
  by (simp add: insert_products_def insert_row_def)

lemma insert_models_Some:
  "models d = Some rows \<Longrightarrow> insert_models k v d =
     (if map_of rows k = None then Inr (d\<lparr>models := Some (rows @ [(k, v)])\<rparr>)
      else Inl IntegrityError)"
  by (simp add: insert_models_def insert_row_def)

lemma insert_products_Inr:
  "insert_products k v d = Inr d' \<Longrightarrow>
     \<exists>rows. products d = Some rows \<and> map_of rows k = None \<and>
       d' = d\<lparr>products := Some (rows @ [(k, v)])\<rparr>"
  by (auto simp: insert_products_def split: sum.splits dest: insert_row_cases)

lemma insert_models_Inr:
  "insert_models k v d = Inr d' \<Longrightarrow>
     \<exists>rows. models d = Some rows \<and> map_of rows k = None \<and>
       d' = d\<lparr>models := Some (rows @ [(k, v)])\<rparr>"
  by (auto simp: insert_models_def split: sum.splits dest: insert_row_cases)


text \<open>What a line that is not a key line can do to the state: nothing, or one row more in
  one of the two tables, under the trimmed current key.\<close>

lemma process_line_nonkey:
  assumes "\<not> endswith line ''*''" and "process_line st line = Inr st'"
  shows "st' = st \<or>
     (\<exists>rows v. products (db st) = Some rows \<and> map_of rows (strip (key st)) = None \<and>
        st' = st\<lparr>db := (db st)\<lparr>products := Some (rows @ [(strip (key st), v)])\<rparr>\<rparr>) \<or>
     (\<exists>rows v. models (db st) = Some rows \<and> map_of rows (strip (key st)) = None \<and>
        st' = st\<lparr>db := (db st)\<lparr>models := Some (rows @ [(strip (key st), v)])\<rparr>\<rparr>)"
proof (cases "line = [] \<or> \<not> startswith line ''ID_''")
  case True
  with assms have "st' = st" by (auto simp: process_line_def split: if_splits)
  then show ?thesis by simp
next
  case False
  with assms obtain ty v where tv: "split1 (CHR ''='') line = [ty, v]"
    by (auto simp: process_line_def split1_def split: if_splits)
  show ?thesis
  proof (cases "ty = ''ID_PRODUCT_FROM_DATABASE''")
    case True
    with assms False tv have "insert_products (strip (key st)) (strip v) (db st) = Inr (db st')"
      and "st' = st\<lparr>db := db st'\<rparr>"
      by (auto simp: process_line_def split: sum.splits)
    then show ?thesis by (auto dest!: insert_products_Inr)
  next
    case notp: False
    show ?thesis
    proof (cases "ty = ''ID_MODEL_FROM_DATABASE''")
      case True
      with assms False tv have "insert_models (strip (key st)) (strip v) (db st) = Inr (db st')"
        and "st' = st\<lparr>db := db st'\<rparr>"
        by (auto simp: process_line_def split: sum.splits)
      then show ?thesis by (auto dest!: insert_models_Inr)
    next
      case False
      with assms notp tv \<open>\<not> (line = [] \<or> \<not> startswith line ''ID_'')\<close> show ?thesis
        by (auto simp: process_line_def)
    qed
  qed
qed

subsection \<open>The run as a whole\<close>

lemma generate_any_file: "generate hw_db files = generate None files"
  by (simp add: generate_def create_tables_fresh)

text \<open>
  Claim C1. The run on the single file of the five lines \<^verbatim>\<open>ab*\<close>,
  \<^verbatim>\<open>ID_PRODUCT_FROM_DATABASE=Acme Widget\<close>, \<^verbatim>\<open>ID_MODEL_FROM_DATABASE=Widget 2000\<close>, \<^verbatim>\<open>abc*\<close>,
  \<^verbatim>\<open>ID_MODEL_FROM_DATABASE=Widget 3000\<close> completes, whatever file \<^verbatim>\<open>hw.db\<close> was there before,
  with the products table holding the one row (ab, Acme Widget), the models table the rows
  (ab, Widget 2000) and (abc, Widget 3000), and the key_len table the rows (min, 2) and
  (max, 3); the same with a newline after the last line.
\<close>

theorem example_run:
  "generate hw_db
     [''ab*'' @ [CHR 0x0A] @ ''ID_PRODUCT_FROM_DATABASE=Acme Widget'' @ [CHR 0x0A] @
      ''ID_MODEL_FROM_DATABASE=Widget 2000'' @ [CHR 0x0A] @ ''abc*'' @ [CHR 0x0A] @
      ''ID_MODEL_FROM_DATABASE=Widget 3000''] =
   Inr \<lparr>products = Some [(''ab'', ''Acme Widget'')],
        models = Some [(''ab'', ''Widget 2000''), (''abc'', ''Widget 3000'')],
        key_len = Some [(''min'', 2), (''max'', 3)]\<rparr> \<and>
   generate hw_db
     [''ab*'' @ [CHR 0x0A] @ ''ID_PRODUCT_FROM_DATABASE=Acme Widget'' @ [CHR 0x0A] @
      ''ID_MODEL_FROM_DATABASE=Widget 2000'' @ [CHR 0x0A] @ ''abc*'' @ [CHR 0x0A] @
      ''ID_MODEL_FROM_DATABASE=Widget 3000'' @ [CHR 0x0A]] =
   Inr \<lparr>products = Some [(''ab'', ''Acme Widget'')],
        models = Some [(''ab'', ''Widget 2000''), (''abc'', ''Widget 3000'')],
        key_len = Some [(''min'', 2), (''max'', 3)]\<rparr>"
proof -
  have "generate None
     [''ab*'' @ [CHR 0x0A] @ ''ID_PRODUCT_FROM_DATABASE=Acme Widget'' @ [CHR 0x0A] @
      ''ID_MODEL_FROM_DATABASE=Widget 2000'' @ [CHR 0x0A] @ ''abc*'' @ [CHR 0x0A] @
      ''ID_MODEL_FROM_DATABASE=Widget 3000''] =
   Inr \<lparr>products = Some [(''ab'', ''Acme Widget'')],
        models = Some [(''ab'', ''Widget 2000''), (''abc'', ''Widget 3000'')],
        key_len = Some [(''min'', 2), (''max'', 3)]\<rparr>"
    by code_simp
  moreover have "generate None
     [''ab*'' @ [CHR 0x0A] @ ''ID_PRODUCT_FROM_DATABASE=Acme Widget'' @ [CHR 0x0A] @
      ''ID_MODEL_FROM_DATABASE=Widget 2000'' @ [CHR 0x0A] @ ''abc*'' @ [CHR 0x0A] @
      ''ID_MODEL_FROM_DATABASE=Widget 3000'' @ [CHR 0x0A]] =
   Inr \<lparr>products = Some [(''ab'', ''Acme Widget'')],
        models = Some [(''ab'', ''Widget 2000''), (''abc'', ''Widget 3000'')],
        key_len = Some [(''min'', 2), (''max'', 3)]\<rparr>"
    by code_simp
  ultimately show ?thesis by (simp only: generate_any_file [of hw_db])
qed

text \<open>
  Claim C7. The outcome of a run (the committed products, models and key_len tables, or
  the exception) is a function of the input files' contents alone: it is the same for
  any two states of the file \<^verbatim>\<open>hw.db\<close> before the run, absent or left by an earlier run
  with any rows. The file found is removed and the tables are created empty, so no row of
  it reaches the new output.
\<close>

theorem rerun_replaces_store: "generate hw_db files = generate hw_db' files"
  by (simp add: generate_def create_tables_fresh)

subsection \<open>The loop over the lines\<close>

lemma process_lines_append:
  "process_lines st (xs @ ys) =
     (case process_lines st xs of Inl e \<Rightarrow> Inl e | Inr st' \<Rightarrow> process_lines st' ys)"
  by (induction xs arbitrary: st) (simp_all split: sum.split)

lemma process_line_nonkey_vars:
  assumes "\<not> endswith line ''*''" and "process_line st line = Inr st'"
  shows "key st' = key st \<and> key_len_min st' = key_len_min st \<and>
     key_len_max st' = key_len_max st \<and> key_len (db st') = key_len (db st)"
  using process_line_nonkey [OF assms] by auto

lemma process_lines_nonkey_vars:
  assumes "list_all (\<lambda>line. \<not> endswith line ''*'') ls" and "process_lines st ls = Inr st'"
  shows "key st' = key st \<and> key_len_min st' = key_len_min st \<and>
     key_len_max st' = key_len_max st \<and> key_len (db st') = key_len (db st)"
  using assms
proof (induction ls arbitrary: st)
  case Nil
  then show ?case by simp
next
  case (Cons l ls)
  from Cons.prems(2) obtain st1 where
    l: "process_line st l = Inr st1" and ls: "process_lines st1 ls = Inr st'"
    by (auto split: sum.splits)
  from Cons.prems(1) have "\<not> endswith l ''*''" and "list_all (\<lambda>line. \<not> endswith line ''*'') ls"
    by simp_all
  with Cons.IH [OF _ ls] process_line_nonkey_vars [OF _ l] show ?case by simp
qed

lemma endswith_append_star:
  "\<not> endswith v ''*'' \<Longrightarrow> p \<noteq> [] \<Longrightarrow> last p \<noteq> CHR ''*'' \<Longrightarrow> \<not> endswith (p @ v) ''*''"
  by (cases "v = []") (simp_all add: endswith_star)

subsection \<open>Key lines\<close>

text \<open>
  Claim C2, as amended. For every line kept by the filter of line 31 whose trimmed text
  ends with \<^verbatim>\<open>*\<close>, the step succeeds, sets the key to the text before the first \<^verbatim>\<open>*\<close> of
  the line, and leaves the database as it is (no row). When that text has no whitespace at
  its end (trimming changes nothing), the lower and upper bound become the minimum and
  the maximum of the old bound and the key's length. The key stays the same over all the
  lines that follow, up to the next line that ends with \<^verbatim>\<open>*\<close>.
\<close>

theorem keyline_sets_context:
  assumes "endswith line ''*''"
  shows "\<exists>st'. process_line st line = Inr st' \<and>
     key st' = takeWhile (\<lambda>c. c \<noteq> CHR ''*'') line \<and>
     db st' = db st \<and>
     (strip (key st') = key st' \<longrightarrow>
        key_len_min st' = min (key_len_min st) (int (length (strip (key st')))) \<and>
        key_len_max st' = max (key_len_max st) (int (length (strip (key st'))))) \<and>
     (\<forall>rest st''. list_all (\<lambda>l. \<not> endswith l ''*'') rest \<longrightarrow>
        process_lines st' rest = Inr st'' \<longrightarrow> key st'' = key st')"
  using process_line_keyline [OF assms, of st] process_lines_nonkey_vars
  by auto

text \<open>
  The claim as stated fails on two lines. On \<^verbatim>\<open>a*b*\<close> the key is \<^verbatim>\<open>a\<close>, the text before
  the first \<^verbatim>\<open>*\<close>, not the text \<^verbatim>\<open>a*b\<close> before the final marker. On \<^verbatim>\<open>ab *\<close> the key
  is \<^verbatim>\<open>ab\<close> followed by a space and both bounds become 3, while the trimmed key \<^verbatim>\<open>ab\<close>
  has length 2.
\<close>

theorem keyline_counterexample:
  "process_line
     \<lparr>db = \<lparr>products = Some [], models = Some [], key_len = Some []\<rparr>,
      key_len_min = 2 ^ 32, key_len_max = 0, key = []\<rparr> ''a*b*'' =
   Inr \<lparr>db = \<lparr>products = Some [], models = Some [], key_len = Some []\<rparr>,
        key_len_min = 1, key_len_max = 1, key = ''a''\<rparr> \<and>
   process_line
     \<lparr>db = \<lparr>products = Some [], models = Some [], key_len = Some []\<rparr>,
      key_len_min = 2 ^ 32, key_len_max = 0, key = []\<rparr> ''ab *'' =
   Inr \<lparr>db = \<lparr>products = Some [], models = Some [], key_len = Some []\<rparr>,
        key_len_min = 3, key_len_max = 3, key = ''ab ''\<rparr> \<and>
   strip ''ab '' = ''ab'' \<and> int (length (strip ''ab '')) = 2"
  by code_simp

text \<open>The theorem at the line \<^verbatim>\<open>ab*\<close>, followed by a model line.\<close>

theorem keyline_sets_context_witness:
  "endswith ''ab*'' ''*'' \<and>
   (\<exists>st'. process_line
       \<lparr>db = \<lparr>products = Some [], models = Some [], key_len = Some []\<rparr>,
        key_len_min = 2 ^ 32, key_len_max = 0, key = []\<rparr> ''ab*'' = Inr st' \<and>
      key st' = ''ab'' \<and> strip (key st') = key st' \<and>
      key_len_min st' = 2 \<and> key_len_max st' = 2 \<and>
      process_lines st' [''ID_MODEL_FROM_DATABASE=x''] =
        Inr (st'\<lparr>db := \<lparr>products = Some [], models = Some [(''ab'', ''x'')], key_len = Some []\<rparr>\<rparr>))"
proof -
  have e: "endswith ''ab*'' ''*''" by code_simp
  have s: "strip ''ab'' = ''ab''" by code_simp
  have n: "\<not> endswith ''ID_MODEL_FROM_DATABASE=x'' ''*''" by code_simp
  have sx: "strip ''x'' = ''x''" by code_simp
  from keyline_sets_context [OF e, of "\<lparr>db = \<lparr>products = Some [], models = Some [], key_len = Some []\<rparr>,
        key_len_min = 2 ^ 32, key_len_max = 0, key = []\<rparr>"]
  obtain st' where *: "process_line
       \<lparr>db = \<lparr>products = Some [], models = Some [], key_len = Some []\<rparr>,
        key_len_min = 2 ^ 32, key_len_max = 0, key = []\<rparr> ''ab*'' = Inr st'"
     "key st' = ''ab''" "db st' = \<lparr>products = Some [], models = Some [], key_len = Some []\<rparr>"
     "strip (key st') = key st' \<longrightarrow>
        key_len_min st' = min (2 ^ 32) (int (length (strip (key st')))) \<and>
        key_len_max st' = max 0 (int (length (strip (key st'))))"
    by auto
  from * s have "key_len_min st' = 2" "key_len_max st' = 2" by simp_all
  moreover have "process_lines st' [''ID_MODEL_FROM_DATABASE=x''] =
        Inr (st'\<lparr>db := \<lparr>products = Some [], models = Some [(''ab'', ''x'')], key_len = Some []\<rparr>\<rparr>)"
    using process_line_model [of "''x''" st', simplified, OF n] * s sx
    by (simp add: insert_models_Some)
  ultimately show ?thesis using e * s by auto
qed

subsection \<open>Attribute lines\<close>

text \<open>
  Claim C3, as amended. A product line (a model line) that follows a key line, with only
  lines that are not key lines in between, inserts exactly one row into the products
  table (the models table): the row of the trimmed key of that key line and the trimmed
  value, after the rows that were there, provided the table has no row with that key.
  When the table has a row with that key, the run ends with the integrity error of the
  primary key; nothing is overwritten.
\<close>

theorem attribute_line_inserts_once:
  assumes "endswith kline ''*''"
    and "list_all (\<lambda>l. \<not> endswith l ''*'') mid"
    and "process_lines st (kline # mid) = Inr st1"
    and "products (db st1) = Some ps" and "models (db st1) = Some ms"
    and "\<not> endswith v ''*''"
  shows "process_lines st (kline # mid @ [''ID_PRODUCT_FROM_DATABASE='' @ v]) =
     (if map_of ps (strip (takeWhile (\<lambda>c. c \<noteq> CHR ''*'') kline)) = None
      then Inr (st1\<lparr>db := (db st1)\<lparr>products :=
             Some (ps @ [(strip (takeWhile (\<lambda>c. c \<noteq> CHR ''*'') kline), strip v)])\<rparr>\<rparr>)
      else Inl IntegrityError) \<and>
   process_lines st (kline # mid @ [''ID_MODEL_FROM_DATABASE='' @ v]) =
     (if map_of ms (strip (takeWhile (\<lambda>c. c \<noteq> CHR ''*'') kline)) = None
      then Inr (st1\<lparr>db := (db st1)\<lparr>models :=
             Some (ms @ [(strip (takeWhile (\<lambda>c. c \<noteq> CHR ''*'') kline), strip v)])\<rparr>\<rparr>)
      else Inl IntegrityError)"
proof -
  from assms(3) obtain st0 where
    k: "process_line st kline = Inr st0" and m: "process_lines st0 mid = Inr st1"
    by (auto split: sum.splits)
  from k process_line_keyline [OF assms(1), of st]
  have "key st0 = takeWhile (\<lambda>c. c \<noteq> CHR ''*'') kline" by auto
  with process_lines_nonkey_vars [OF assms(2) m]
  have key: "key st1 = takeWhile (\<lambda>c. c \<noteq> CHR ''*'') kline" by simp
  have np: "\<not> endswith (''ID_PRODUCT_FROM_DATABASE='' @ v) ''*''"
    by (rule endswith_append_star [OF assms(6)]) simp_all
  have nm: "\<not> endswith (''ID_MODEL_FROM_DATABASE='' @ v) ''*''"
    by (rule endswith_append_star [OF assms(6)]) simp_all
  have app: "process_lines st (kline # mid @ [l]) = process_line st1 l" for l
    using process_lines_append [of st "kline # mid" "[l]"] assms(3)
    by (simp split: sum.split)
  have "process_line st1 (''ID_PRODUCT_FROM_DATABASE='' @ v) =
     (if map_of ps (strip (key st1)) = None
      then Inr (st1\<lparr>db := (db st1)\<lparr>products := Some (ps @ [(strip (key st1), strip v)])\<rparr>\<rparr>)
      else Inl IntegrityError)"
    unfolding process_line_product [OF np] insert_products_Some [OF assms(4)] by simp
  moreover have "process_line st1 (''ID_MODEL_FROM_DATABASE='' @ v) =
     (if map_of ms (strip (key st1)) = None
      then Inr (st1\<lparr>db := (db st1)\<lparr>models := Some (ms @ [(strip (key st1), strip v)])\<rparr>\<rparr>)
      else Inl IntegrityError)"
    unfolding process_line_model [OF nm] insert_models_Some [OF assms(5)] by simp
  ultimately show ?thesis by (simp only: app key)
qed

text \<open>Two model lines under one key: the run does not complete.\<close>

theorem duplicate_key_counterexample:
  "generate None
     [''ab*'' @ [CHR 0x0A] @ ''ID_MODEL_FROM_DATABASE=x'' @ [CHR 0x0A] @
      ''ID_MODEL_FROM_DATABASE=y''] = Inl IntegrityError"
  by code_simp

text \<open>The theorem under the key line \<^verbatim>\<open>ab*\<close>, with a models table that has the key \<^verbatim>\<open>ab\<close>
  and a products table that does not.\<close>

theorem attribute_line_inserts_once_witness:
  "endswith ''ab*'' ''*'' \<and> list_all (\<lambda>l. \<not> endswith l ''*'') [''ID_VENDOR_FROM_DATABASE=w''] \<and>
   process_lines \<lparr>db = \<lparr>products = Some [], models = Some [(''ab'', ''x'')], key_len = Some []\<rparr>,
        key_len_min = 2 ^ 32, key_len_max = 0, key = []\<rparr> [''ab*'', ''ID_VENDOR_FROM_DATABASE=w''] =
     Inr \<lparr>db = \<lparr>products = Some [], models = Some [(''ab'', ''x'')], key_len = Some []\<rparr>,
        key_len_min = 2, key_len_max = 2, key = ''ab''\<rparr> \<and>
   \<not> endswith ''y'' ''*'' \<and>
   process_lines \<lparr>db = \<lparr>products = Some [], models = Some [(''ab'', ''x'')], key_len = Some []\<rparr>,
        key_len_min = 2 ^ 32, key_len_max = 0, key = []\<rparr>
       [''ab*'', ''ID_VENDOR_FROM_DATABASE=w'', ''ID_PRODUCT_FROM_DATABASE=y''] =
     Inr \<lparr>db = \<lparr>products = Some [(''ab'', ''y'')], models = Some [(''ab'', ''x'')], key_len = Some []\<rparr>,
        key_len_min = 2, key_len_max = 2, key = ''ab''\<rparr> \<and>
   process_lines \<lparr>db = \<lparr>products = Some [], models = Some [(''ab'', ''x'')], key_len = Some []\<rparr>,
        key_len_min = 2 ^ 32, key_len_max = 0, key = []\<rparr>
       [''ab*'', ''ID_VENDOR_FROM_DATABASE=w'', ''ID_MODEL_FROM_DATABASE=y''] = Inl IntegrityError"
proof -
  have h1: "endswith ''ab*'' ''*''" by code_simp
  have h2: "list_all (\<lambda>l. \<not> endswith l ''*'') [''ID_VENDOR_FROM_DATABASE=w'']" by code_simp
  have h3: "process_lines \<lparr>db = \<lparr>products = Some [], models = Some [(''ab'', ''x'')], key_len = Some []\<rparr>,
        key_len_min = 2 ^ 32, key_len_max = 0, key = []\<rparr> [''ab*'', ''ID_VENDOR_FROM_DATABASE=w''] =
     Inr \<lparr>db = \<lparr>products = Some [], models = Some [(''ab'', ''x'')], key_len = Some []\<rparr>,
        key_len_min = 2, key_len_max = 2, key = ''ab''\<rparr>" by code_simp
  have h6: "\<not> endswith ''y'' ''*''" by code_simp
  have s: "strip ''ab'' = ''ab''" "strip ''y'' = ''y''" by code_simp+
  from attribute_line_inserts_once [OF h1 h2 h3 _ _ h6, of "[]" "[(''ab'', ''x'')]"]
  show ?thesis using h1 h2 h3 h6 s by simp
qed

subsection \<open>The bounds and the stored keys\<close>

lemma keys_of_lines_Cons:
  "keys_of_lines (l # ls) =
     (if endswith l ''*'' then [takeWhile (\<lambda>c. c \<noteq> CHR ''*'') l] else []) @ keys_of_lines ls"
  by (simp add: keys_of_lines_def hd_split)

lemma keys_of_lines_Nil: "keys_of_lines [] = []"
  by (simp add: keys_of_lines_def)

lemma observed_keys_Cons:
  "observed_keys (c # cs) = keys_of_lines (lines_of c) @ observed_keys cs"
  by (simp add: observed_keys_def)

lemma observed_keys_Nil: "observed_keys [] = []"
  by (simp add: observed_keys_def)

lemma bounds_inv_line:
  assumes "bounds_inv obs st" and "process_line st l = Inr st'"
  shows "bounds_inv (obs @ keys_of_lines [l]) st'"
proof (cases "endswith l ''*''")
  case True
  from process_line_keyline [OF True, of st] assms(2)
  have st': "st' = st\<lparr>key := takeWhile (\<lambda>x. x \<noteq> CHR ''*'') l,
      key_len_min := min (key_len_min st) (int (length (takeWhile (\<lambda>x. x \<noteq> CHR ''*'') l))),
      key_len_max := max (key_len_max st) (int (length (takeWhile (\<lambda>x. x \<noteq> CHR ''*'') l)))\<rparr>"
    by simp
  from assms(1) True show ?thesis
    unfolding st' bounds_inv_def keys_of_lines_Cons keys_of_lines_Nil
    by (auto simp: list_all_iff)
next
  case False
  have strip_key: "strip (key st) = [] \<or> strip (key st) \<in> strip ` set obs"
    using assms(1) by (auto simp: bounds_inv_def strip_Nil)
  from process_line_nonkey [OF False assms(2)] show ?thesis
  proof (elim disjE exE conjE)
    assume "st' = st"
    with assms(1) False show ?thesis by (simp add: keys_of_lines_Cons keys_of_lines_Nil)
  next
    fix rows v
    assume "products (db st) = Some rows"
      and "st' = st\<lparr>db := (db st)\<lparr>products := Some (rows @ [(strip (key st), v)])\<rparr>\<rparr>"
    with assms(1) False strip_key show ?thesis
      by (auto simp: keys_of_lines_Cons keys_of_lines_Nil bounds_inv_def stored_keys_def
          rows_of_def list_all_iff)
  next
    fix rows v
    assume "models (db st) = Some rows"
      and "st' = st\<lparr>db := (db st)\<lparr>models := Some (rows @ [(strip (key st), v)])\<rparr>\<rparr>"
    with assms(1) False strip_key show ?thesis
      by (auto simp: keys_of_lines_Cons keys_of_lines_Nil bounds_inv_def stored_keys_def
          rows_of_def list_all_iff)
  qed
qed

lemma keys_of_lines_append: "keys_of_lines (xs @ ys) = keys_of_lines xs @ keys_of_lines ys"
  by (simp add: keys_of_lines_def)

lemma bounds_inv_lines:
  assumes "bounds_inv obs st" and "process_lines st ls = Inr st'"
  shows "bounds_inv (obs @ keys_of_lines ls) st'"
  using assms
proof (induction ls arbitrary: st obs)
  case Nil
  then show ?case by (simp add: keys_of_lines_Nil)
next
  case (Cons l ls)
  from Cons.prems(2) obtain st1 where
    l: "process_line st l = Inr st1" and ls: "process_lines st1 ls = Inr st'"
    by (auto split: sum.splits)
  from Cons.IH [OF bounds_inv_line [OF Cons.prems(1) l] ls]
    keys_of_lines_append [of "[l]" ls]
  show ?case by simp
qed

lemma bounds_inv_reset: "bounds_inv obs st \<Longrightarrow> bounds_inv obs (st\<lparr>key := []\<rparr>)"
  by (simp add: bounds_inv_def)

lemma bounds_inv_files:
  assumes "bounds_inv obs st" and "process_files st files = Inr st'"
  shows "bounds_inv (obs @ observed_keys files) st'"
  using assms
proof (induction files arbitrary: st obs)
  case Nil
  then show ?case by (simp add: observed_keys_Nil)
next
  case (Cons c cs)
  from Cons.prems(2) obtain st1 where
    c: "process_lines (st\<lparr>key := []\<rparr>) (lines_of c) = Inr st1"
    and cs: "process_files st1 cs = Inr st'"
    by (auto simp: process_file_def split: sum.splits)
  from Cons.IH [OF bounds_inv_lines [OF bounds_inv_reset [OF Cons.prems(1)] c] cs]
  show ?case by (simp add: observed_keys_Cons)
qed

text \<open>The key_len table is not touched by the scan.\<close>

lemma process_line_key_len:
  assumes "process_line st l = Inr st'"
  shows "key_len (db st') = key_len (db st)"
proof (cases "endswith l ''*''")
  case True
  from process_line_keyline [OF True, of st] assms show ?thesis by auto
next
  case False
  from process_line_nonkey_vars [OF False assms] show ?thesis by simp
qed

lemma process_lines_key_len:
  "process_lines st ls = Inr st' \<Longrightarrow> key_len (db st') = key_len (db st)"
proof (induction ls arbitrary: st)
  case Nil
  then show ?case by simp
next
  case (Cons l ls)
  then show ?case by (auto split: sum.splits dest: process_line_key_len)
qed

lemma process_files_key_len:
  "process_files st files = Inr st' \<Longrightarrow> key_len (db st') = key_len (db st)"
proof (induction files arbitrary: st)
  case Nil
  then show ?case by simp
next
  case (Cons c cs)
  then show ?case
    by (auto simp: process_file_def split: sum.splits dest!: process_lines_key_len)
qed

text \<open>A run that completes: the scan has completed, and the two bounds are the two rows
  of the key_len table.\<close>

lemma generate_Inr:
  assumes "generate hw_db files = Inr d"
  shows "\<exists>st. process_files
       \<lparr>db = \<lparr>products = Some [], models = Some [], key_len = Some []\<rparr>,
        key_len_min = 2 ^ 32, key_len_max = 0, key = []\<rparr> files = Inr st \<and>
     d = (db st)\<lparr>key_len := Some [(''min'', key_len_min st), (''max'', key_len_max st)]\<rparr>"
proof -
  from assms obtain st where
    st: "process_files
       \<lparr>db = \<lparr>products = Some [], models = Some [], key_len = Some []\<rparr>,
        key_len_min = 2 ^ 32, key_len_max = 0, key = []\<rparr> files = Inr st"
    and d: "insert_bounds st = Inr d"
    by (auto simp: generate_def create_tables_fresh split: sum.splits if_splits)
  from process_files_key_len [OF st] have "key_len (db st) = Some []" by simp
  with d have "d = (db st)\<lparr>key_len := Some [(''min'', key_len_min st), (''max'', key_len_max st)]\<rparr>"
    by (simp add: insert_bounds_def insert_key_len_def insert_row_def)
  with st show ?thesis by blast
qed

lemma generate_of_scan:
  assumes "files \<noteq> []" and "process_files
       \<lparr>db = \<lparr>products = Some [], models = Some [], key_len = Some []\<rparr>,
        key_len_min = 2 ^ 32, key_len_max = 0, key = []\<rparr> files = Inr st"
  shows "generate hw_db files =
     Inr ((db st)\<lparr>key_len := Some [(''min'', key_len_min st), (''max'', key_len_max st)]\<rparr>)"
proof -
  from process_files_key_len [OF assms(2)] have "key_len (db st) = Some []" by simp
  with assms show ?thesis
    by (simp add: generate_def create_tables_fresh insert_bounds_def insert_key_len_def
        insert_row_def)
qed

text \<open>
  Claim C4, as amended. At the end of every run that completes, the key_len table has the
  two rows min and max, and: every observed key (the text before the first \<^verbatim>\<open>*\<close> of a key
  line, as line 37 reads it) has a length from min to max; every key stored in the products
  and models tables has a length of at most max, and is the empty string or an observed
  key trimmed; min is at most the length of every stored key that is itself an observed
  key.
\<close>

theorem bounds_cover_keys:
  assumes "generate hw_db files = Inr d"
  shows "\<exists>mn mx. key_len d = Some [(''min'', mn), (''max'', mx)] \<and>
     (\<forall>k \<in> set (observed_keys files). mn \<le> int (length k) \<and> int (length k) \<le> mx) \<and>
     (\<forall>k \<in> set (stored_keys d).
        int (length k) \<le> mx \<and>
        (k = [] \<or> (\<exists>r \<in> set (observed_keys files). k = strip r)) \<and>
        (k \<in> set (observed_keys files) \<longrightarrow> mn \<le> int (length k)))"
proof -
  from generate_Inr [OF assms] obtain st where
    st: "process_files
       \<lparr>db = \<lparr>products = Some [], models = Some [], key_len = Some []\<rparr>,
        key_len_min = 2 ^ 32, key_len_max = 0, key = []\<rparr> files = Inr st"
    and d: "d = (db st)\<lparr>key_len := Some [(''min'', key_len_min st), (''max'', key_len_max st)]\<rparr>"
    by blast
  have "bounds_inv []
       \<lparr>db = \<lparr>products = Some [], models = Some [], key_len = Some []\<rparr>,
        key_len_min = 2 ^ 32, key_len_max = 0, key = []\<rparr>"
    by (simp add: bounds_inv_def stored_keys_def rows_of_def)
  from bounds_inv_files [OF this st] have inv: "bounds_inv (observed_keys files) st" by simp
  have keys: "stored_keys d = stored_keys (db st)" by (simp add: d stored_keys_def)
  from inv have obs: "\<forall>k \<in> set (observed_keys files).
      key_len_min st \<le> int (length k) \<and> int (length k) \<le> key_len_max st"
    by (simp add: bounds_inv_def list_all_iff)
  from inv have prov: "\<forall>k \<in> set (stored_keys d).
      k = [] \<or> (\<exists>r \<in> set (observed_keys files). k = strip r)"
    by (auto simp: bounds_inv_def list_all_iff keys)
  from inv have nonneg: "0 \<le> key_len_max st" by (simp add: bounds_inv_def)
  have upper: "int (length k) \<le> key_len_max st" if "k \<in> set (stored_keys d)" for k
  proof -
    from prov that consider "k = []" | r where "r \<in> set (observed_keys files)" "k = strip r"
      by blast
    then show ?thesis
    proof cases
      case 1
      with nonneg show ?thesis by simp
    next
      case 2
      with obs have "int (length r) \<le> key_len_max st" by blast
      moreover have "length k \<le> length r" unfolding \<open>k = strip r\<close> by (rule length_strip)
      ultimately show ?thesis by simp
    qed
  qed
  have "key_len d = Some [(''min'', key_len_min st), (''max'', key_len_max st)]"
    by (simp add: d)
  with obs prov upper show ?thesis by blast
qed

text \<open>
  The claim as stated fails for the lower bound. A model line before the first key line
  of its file is stored under the empty key, of length 0, while min is 3; the key line
  \<^verbatim>\<open>abcd *\<close> gives min 5 and the stored key \<^verbatim>\<open>abcd\<close> of length 4. In both runs a key line
  was observed.
\<close>

theorem bounds_counterexample:
  "generate None [''ID_MODEL_FROM_DATABASE=x'' @ [CHR 0x0A] @ ''abc*''] =
     Inr \<lparr>products = Some [], models = Some [([], ''x'')],
          key_len = Some [(''min'', 3), (''max'', 3)]\<rparr> \<and>
   \<not> list_all (\<lambda>k. 3 \<le> int (length k))
     (stored_keys \<lparr>products = Some [], models = Some [([], ''x'')],
          key_len = Some [(''min'', 3), (''max'', 3)]\<rparr>) \<and>
   generate None [''abcd *'' @ [CHR 0x0A] @ ''ID_PRODUCT_FROM_DATABASE=y''] =
     Inr \<lparr>products = Some [(''abcd'', ''y'')], models = Some [],
          key_len = Some [(''min'', 5), (''max'', 5)]\<rparr> \<and>
   \<not> list_all (\<lambda>k. 5 \<le> int (length k))
     (stored_keys \<lparr>products = Some [(''abcd'', ''y'')], models = Some [],
          key_len = Some [(''min'', 5), (''max'', 5)]\<rparr>)"
  by code_simp

text \<open>The theorem on a run with two key lines, one of them with a space before the
  \<^verbatim>\<open>*\<close>.\<close>

theorem bounds_cover_keys_witness:
  "generate None [''ab*'' @ [CHR 0x0A] @ ''ID_MODEL_FROM_DATABASE=x'' @ [CHR 0x0A] @ ''abc *''] =
     Inr \<lparr>products = Some [], models = Some [(''ab'', ''x'')],
          key_len = Some [(''min'', 2), (''max'', 4)]\<rparr> \<and>
   observed_keys [''ab*'' @ [CHR 0x0A] @ ''ID_MODEL_FROM_DATABASE=x'' @ [CHR 0x0A] @ ''abc *''] =
     [''ab'', ''abc ''] \<and>
   stored_keys \<lparr>products = Some [], models = Some [(''ab'', ''x'')],
          key_len = Some [(''min'', 2), (''max'', 4)]\<rparr> = [''ab''] \<and>
   (\<exists>mn mx. Some [(''min'', 2), (''max'', 4)] = Some [(''min'', mn), (''max'', mx)] \<and>
      mn \<le> int (length ''ab'') \<and> int (length ''ab'') \<le> mx \<and>
      mn \<le> int (length ''abc '') \<and> int (length ''abc '') \<le> mx)"
proof -
  have g: "generate None [''ab*'' @ [CHR 0x0A] @ ''ID_MODEL_FROM_DATABASE=x'' @ [CHR 0x0A] @ ''abc *''] =
     Inr \<lparr>products = Some [], models = Some [(''ab'', ''x'')],
          key_len = Some [(''min'', 2), (''max'', 4)]\<rparr>"
    by code_simp
  have ob: "observed_keys [''ab*'' @ [CHR 0x0A] @ ''ID_MODEL_FROM_DATABASE=x'' @ [CHR 0x0A] @ ''abc *''] =
     [''ab'', ''abc '']"
    by code_simp
  have sk: "stored_keys \<lparr>products = Some [], models = Some [(''ab'', ''x'')],
          key_len = Some [(''min'', 2), (''max'', 4)]\<rparr> = [''ab'']"
    by code_simp
  from bounds_cover_keys [OF g] show ?thesis
    unfolding ob sk using g ob sk by simp
qed

subsection \<open>Runs without a key line\<close>

lemma process_files_nonkey_vars:
  assumes "list_all (\<lambda>c. list_all (\<lambda>l. \<not> endswith l ''*'') (lines_of c)) files"
    and "process_files st files = Inr st'"
  shows "key_len_min st' = key_len_min st \<and> key_len_max st' = key_len_max st"
  using assms
proof (induction files arbitrary: st)
  case Nil
  then show ?case by simp
next
  case (Cons c cs)
  from Cons.prems(2) obtain st1 where
    c: "process_lines (st\<lparr>key := []\<rparr>) (lines_of c) = Inr st1"
    and cs: "process_files st1 cs = Inr st'"
    by (auto simp: process_file_def split: sum.splits)
  from Cons.prems(1) have nk: "list_all (\<lambda>l. \<not> endswith l ''*'') (lines_of c)"
    and rest: "list_all (\<lambda>c. list_all (\<lambda>l. \<not> endswith l ''*'') (lines_of c)) cs"
    by simp_all
  from process_lines_nonkey_vars [OF nk c] Cons.IH [OF rest cs] show ?case by simp
qed

lemma split1_parts:
  assumes "split1 c l = [ty, v]"
  shows "l = ty @ c # v"
proof -
  from assms have c: "c \<in> set l" and ty: "ty = takeWhile (\<lambda>x. x \<noteq> c) l"
    and v: "v = tl (dropWhile (\<lambda>x. x \<noteq> c) l)"
    by (auto simp: split1_def split: if_splits)
  from c have "dropWhile (\<lambda>x. x \<noteq> c) l \<noteq> []" by (simp add: dropWhile_eq_Nil_conv)
  moreover from this have "hd (dropWhile (\<lambda>x. x \<noteq> c) l) = c"
    using hd_dropWhile [of "\<lambda>x. x \<noteq> c" l] by simp
  ultimately have "dropWhile (\<lambda>x. x \<noteq> c) l = c # v" unfolding v by (cases "dropWhile (\<lambda>x. x \<noteq> c) l") auto
  with takeWhile_dropWhile_id [of "\<lambda>x. x \<noteq> c" l] ty show ?thesis by simp
qed

lemma process_line_other_attribute:
  assumes "\<not> endswith l ''*''" and "CHR ''='' \<in> set l"
    and "\<not> product_line l" and "\<not> model_line l"
  shows "process_line st l = Inr st"
proof (cases "l = [] \<or> \<not> startswith l ''ID_''")
  case True
  with assms(1) show ?thesis by (auto simp: process_line_def)
next
  case False
  from assms(2) obtain ty v where tv: "split1 (CHR ''='') l = [ty, v]"
    by (simp add: split1_def)
  from split1_parts [OF tv] have l: "l = ty @ CHR ''='' # v" .
  from assms(3) l have "ty \<noteq> ''ID_PRODUCT_FROM_DATABASE''"
    by (auto simp: product_line_def startswith_def)
  moreover from assms(4) l have "ty \<noteq> ''ID_MODEL_FROM_DATABASE''"
    by (auto simp: model_line_def startswith_def)
  ultimately show ?thesis using False assms(1) tv by (simp add: process_line_def)
qed

text \<open>The step on a line that is not a key line, when the key is empty and the two tables
  exist.\<close>

lemma process_line_empty_key:
  assumes "\<not> endswith l ''*''" and "key st = []"
    and "products (db st) = Some ps" and "models (db st) = Some ms"
  shows "process_line st l =
     (if startswith l ''ID_'' \<and> CHR ''='' \<notin> set l then Inl ValueError
      else if product_line l then
        (if map_of ps [] = None
         then Inr (st\<lparr>db := (db st)\<lparr>products :=
                Some (ps @ [([], strip (drop (length ''ID_PRODUCT_FROM_DATABASE='') l))])\<rparr>\<rparr>)
         else Inl IntegrityError)
      else if model_line l then
        (if map_of ms [] = None
         then Inr (st\<lparr>db := (db st)\<lparr>models :=
                Some (ms @ [([], strip (drop (length ''ID_MODEL_FROM_DATABASE='') l))])\<rparr>\<rparr>)
         else Inl IntegrityError)
      else Inr st)"
proof -
  consider (bad) "startswith l ''ID_''" "CHR ''='' \<notin> set l"
    | (prod) "product_line l" | (model) "model_line l"
    | (other) "\<not> product_line l" "\<not> model_line l" "\<not> startswith l ''ID_'' \<or> CHR ''='' \<in> set l"
    by blast
  then show ?thesis
  proof cases
    case bad
    with process_line_no_eq [OF assms(1) bad] show ?thesis by simp
  next
    case prod
    define v where "v = drop (length ''ID_PRODUCT_FROM_DATABASE='') l"
    have "take (length ''ID_PRODUCT_FROM_DATABASE='') l @ v = l"
      unfolding v_def by (rule append_take_drop_id)
    with prod have l: "l = ''ID_PRODUCT_FROM_DATABASE='' @ v"
      unfolding product_line_def startswith_def by metis
    from assms(1) have ne: "\<not> endswith (''ID_PRODUCT_FROM_DATABASE='' @ v) ''*''"
      unfolding l .
    have "process_line st (''ID_PRODUCT_FROM_DATABASE='' @ v) =
        (if map_of ps [] = None
         then Inr (st\<lparr>db := (db st)\<lparr>products := Some (ps @ [([], strip v)])\<rparr>\<rparr>)
         else Inl IntegrityError)"
      unfolding process_line_product [OF ne] insert_products_Some [OF assms(3)] assms(2) strip_Nil
      by simp
    then show ?thesis
      unfolding l by (simp add: product_line_def startswith_def)
  next
    case model
    define v where "v = drop (length ''ID_MODEL_FROM_DATABASE='') l"
    have "take (length ''ID_MODEL_FROM_DATABASE='') l @ v = l"
      unfolding v_def by (rule append_take_drop_id)
    with model have l: "l = ''ID_MODEL_FROM_DATABASE='' @ v"
      unfolding model_line_def startswith_def by metis
    from assms(1) have ne: "\<not> endswith (''ID_MODEL_FROM_DATABASE='' @ v) ''*''"
      unfolding l .
    have "process_line st (''ID_MODEL_FROM_DATABASE='' @ v) =
        (if map_of ms [] = None
         then Inr (st\<lparr>db := (db st)\<lparr>models := Some (ms @ [([], strip v)])\<rparr>\<rparr>)
         else Inl IntegrityError)"
      unfolding process_line_model [OF ne] insert_models_Some [OF assms(4)] assms(2) strip_Nil
      by simp
    then show ?thesis
      unfolding l by (simp add: product_line_def model_line_def startswith_def)
  next
    case other
    show ?thesis
    proof (cases "startswith l ''ID_''")
      case True
      with other have "CHR ''='' \<in> set l" by simp
      from process_line_other_attribute [OF assms(1) this other(1,2)] other this show ?thesis
        by simp
    next
      case False
      with assms(1) other show ?thesis by (simp add: process_line_def)
    qed
  qed
qed

lemma product_line_facts:
  assumes "product_line l"
  shows "CHR ''='' \<in> set l \<and> \<not> model_line l"
proof -
  have "take (length ''ID_PRODUCT_FROM_DATABASE='') l @ drop (length ''ID_PRODUCT_FROM_DATABASE='') l = l"
    by (rule append_take_drop_id)
  with assms obtain v where "l = ''ID_PRODUCT_FROM_DATABASE='' @ v"
    unfolding product_line_def startswith_def by metis
  then show ?thesis by (simp add: model_line_def startswith_def)
qed

lemma model_line_facts:
  assumes "model_line l"
  shows "CHR ''='' \<in> set l \<and> \<not> product_line l"
proof -
  have "take (length ''ID_MODEL_FROM_DATABASE='') l @ drop (length ''ID_MODEL_FROM_DATABASE='') l = l"
    by (rule append_take_drop_id)
  with assms obtain v where "l = ''ID_MODEL_FROM_DATABASE='' @ v"
    unfolding model_line_def startswith_def by metis
  then show ?thesis by (simp add: product_line_def startswith_def)
qed

lemma empty_key_count_snoc: "empty_key_count (rows @ [([], v)]) = 1"
  by (simp add: empty_key_count_def)

lemma scan_lines_empty_key:
  assumes "list_all (\<lambda>l. \<not> endswith l ''*'') ls" and "key st = []"
    and "products (db st) = Some ps" and "models (db st) = Some ms"
  shows "case process_lines st ls of
       Inl e \<Rightarrow> \<not> scan_ok ps ms ls
     | Inr st' \<Rightarrow> scan_ok ps ms ls \<and> key st' = [] \<and>
         (\<exists>ps' ms'. products (db st') = Some ps' \<and> models (db st') = Some ms' \<and>
            empty_key_count ps' = empty_key_count ps + length (filter product_line ls) \<and>
            empty_key_count ms' = empty_key_count ms + length (filter model_line ls))"
  using assms
proof (induction ls arbitrary: st ps ms)
  case Nil
  then show ?case by (simp add: scan_ok_def empty_key_count_def)
next
  case (Cons l ls)
  from Cons.prems(1) have nk: "\<not> endswith l ''*''"
    and rest: "list_all (\<lambda>l. \<not> endswith l ''*'') ls" by simp_all
  note step = process_line_empty_key [OF nk Cons.prems(2-4)]
  consider (bad) "startswith l ''ID_''" "CHR ''='' \<notin> set l"
    | (prod) "product_line l" | (model) "model_line l"
    | (other) "\<not> product_line l" "\<not> model_line l" "\<not> (startswith l ''ID_'' \<and> CHR ''='' \<notin> set l)"
    by blast
  then show ?case
  proof cases
    case bad
    with step show ?thesis by (simp add: scan_ok_def)
  next
    case prod
    from product_line_facts [OF prod] have eq: "CHR ''='' \<in> set l" and nm: "\<not> model_line l"
      by simp_all
    show ?thesis
    proof (cases "map_of ps [] = None")
      case True
      define st1 where "st1 = st\<lparr>db := (db st)\<lparr>products :=
          Some (ps @ [([], strip (drop (length ''ID_PRODUCT_FROM_DATABASE='') l))])\<rparr>\<rparr>"
      from step prod eq True have l: "process_line st l = Inr st1" by (simp add: st1_def)
      have "key st1 = []" "models (db st1) = Some ms"
        "products (db st1) = Some (ps @ [([], strip (drop (length ''ID_PRODUCT_FROM_DATABASE='') l))])"
        using Cons.prems by (simp_all add: st1_def)
      moreover from True have "empty_key_count ps = 0" by (simp add: empty_key_count_def)
      ultimately show ?thesis using Cons.IH [OF rest, of st1 _ ms] l prod nm eq
        by (auto simp: scan_ok_def empty_key_count_snoc split: sum.splits)
    next
      case False
      with step prod eq have "process_line st l = Inl IntegrityError" by simp
      moreover from False have "empty_key_count ps = 1" by (simp add: empty_key_count_def)
      ultimately show ?thesis using prod by (simp add: scan_ok_def)
    qed
  next
    case model
    from model_line_facts [OF model] have eq: "CHR ''='' \<in> set l" and np: "\<not> product_line l"
      by simp_all
    show ?thesis
    proof (cases "map_of ms [] = None")
      case True
      define st1 where "st1 = st\<lparr>db := (db st)\<lparr>models :=
          Some (ms @ [([], strip (drop (length ''ID_MODEL_FROM_DATABASE='') l))])\<rparr>\<rparr>"
      from step model np eq True have l: "process_line st l = Inr st1" by (simp add: st1_def)
      have "key st1 = []" "products (db st1) = Some ps"
        "models (db st1) = Some (ms @ [([], strip (drop (length ''ID_MODEL_FROM_DATABASE='') l))])"
        using Cons.prems by (simp_all add: st1_def)
      moreover from True have "empty_key_count ms = 0" by (simp add: empty_key_count_def)
      ultimately show ?thesis using Cons.IH [OF rest, of st1 ps] l model np eq
        by (auto simp: scan_ok_def empty_key_count_snoc split: sum.splits)
    next
      case False
      with step model np eq have "process_line st l = Inl IntegrityError" by simp
      moreover from False have "empty_key_count ms = 1" by (simp add: empty_key_count_def)
      ultimately show ?thesis using model by (simp add: scan_ok_def)
    qed
  next
    case other
    with step have l: "process_line st l = Inr st" by auto
    from Cons.IH [OF rest Cons.prems(2-4)] l other show ?thesis
      by (auto simp: scan_ok_def split: sum.splits)
  qed
qed


lemma all_lines_Cons: "all_lines (c # cs) = lines_of c @ all_lines cs"
  by (simp add: all_lines_def)

lemma scan_ok_append:
  assumes "empty_key_count ps' = empty_key_count ps + length (filter product_line xs)"
    and "empty_key_count ms' = empty_key_count ms + length (filter model_line xs)"
  shows "scan_ok ps ms (xs @ ys) \<longleftrightarrow> scan_ok ps ms xs \<and> scan_ok ps' ms' ys"
  using assms by (auto simp: scan_ok_def)

lemma scan_ok_prefix: "scan_ok ps ms (xs @ ys) \<Longrightarrow> scan_ok ps ms xs"
  by (auto simp: scan_ok_def)

lemma scan_files_no_key:
  assumes "list_all (\<lambda>c. list_all (\<lambda>l. \<not> endswith l ''*'') (lines_of c)) files"
    and "products (db st) = Some ps" and "models (db st) = Some ms"
  shows "(\<exists>st'. process_files st files = Inr st') \<longleftrightarrow> scan_ok ps ms (all_lines files)"
  using assms
proof (induction files arbitrary: st ps ms)
  case Nil
  then show ?case by (simp add: all_lines_def scan_ok_def empty_key_count_def)
next
  case (Cons c cs)
  from Cons.prems(1) have nk: "list_all (\<lambda>l. \<not> endswith l ''*'') (lines_of c)"
    and rest: "list_all (\<lambda>c. list_all (\<lambda>l. \<not> endswith l ''*'') (lines_of c)) cs"
    by simp_all
  have lines: "case process_lines (st\<lparr>key := []\<rparr>) (lines_of c) of
       Inl e \<Rightarrow> \<not> scan_ok ps ms (lines_of c)
     | Inr st' \<Rightarrow> scan_ok ps ms (lines_of c) \<and> key st' = [] \<and>
         (\<exists>ps' ms'. products (db st') = Some ps' \<and> models (db st') = Some ms' \<and>
            empty_key_count ps' = empty_key_count ps + length (filter product_line (lines_of c)) \<and>
            empty_key_count ms' = empty_key_count ms + length (filter model_line (lines_of c)))"
    by (rule scan_lines_empty_key [OF nk]) (simp_all add: Cons.prems)
  show ?case
  proof (cases "process_lines (st\<lparr>key := []\<rparr>) (lines_of c)")
    case (Inl e)
    with lines have "\<not> scan_ok ps ms (lines_of c)" by simp
    with scan_ok_prefix [of ps ms "lines_of c" "all_lines cs"]
    have "\<not> scan_ok ps ms (all_lines (c # cs))" by (auto simp: all_lines_Cons)
    with Inl show ?thesis by (simp add: process_file_def)
  next
    case (Inr st1)
    with lines obtain ps1 ms1 where ok: "scan_ok ps ms (lines_of c)"
      and p1: "products (db st1) = Some ps1" and m1: "models (db st1) = Some ms1"
      and ep: "empty_key_count ps1 = empty_key_count ps + length (filter product_line (lines_of c))"
      and em: "empty_key_count ms1 = empty_key_count ms + length (filter model_line (lines_of c))"
      by auto
    from Cons.IH [OF rest p1 m1] scan_ok_append [OF ep em, of "all_lines cs"] ok Inr
    show ?thesis by (simp add: process_file_def all_lines_Cons)
  qed
qed

text \<open>
  Claim C9, as amended. If no key line occurs in any input file, every run that completes
  writes the key_len rows (min, 2^32) and (max, 0), the initial values; and the run
  completes exactly when there is at least one input file, every line that starts with
  \<^verbatim>\<open>ID_\<close> has a \<^verbatim>\<open>=\<close>, and the files together hold at most one product line and at most
  one model line (each of them is stored under the empty key).
\<close>

theorem no_key_line_bounds:
  assumes "list_all (\<lambda>c. list_all (\<lambda>l. \<not> endswith l ''*'') (lines_of c)) files"
  shows "(\<forall>d. generate hw_db files = Inr d \<longrightarrow>
            key_len d = Some [(''min'', 2 ^ 32), (''max'', 0)]) \<and>
     ((\<exists>d. generate hw_db files = Inr d) \<longleftrightarrow>
        files \<noteq> [] \<and>
        list_all (\<lambda>l. startswith l ''ID_'' \<longrightarrow> CHR ''='' \<in> set l) (all_lines files) \<and>
        length (filter product_line (all_lines files)) \<le> 1 \<and>
        length (filter model_line (all_lines files)) \<le> 1)"
proof (intro conjI allI impI)
  fix d
  assume "generate hw_db files = Inr d"
  from generate_Inr [OF this] obtain st where
    st: "process_files
       \<lparr>db = \<lparr>products = Some [], models = Some [], key_len = Some []\<rparr>,
        key_len_min = 2 ^ 32, key_len_max = 0, key = []\<rparr> files = Inr st"
    and d: "d = (db st)\<lparr>key_len := Some [(''min'', key_len_min st), (''max'', key_len_max st)]\<rparr>"
    by blast
  from process_files_nonkey_vars [OF assms st] d
  show "key_len d = Some [(''min'', 2 ^ 32), (''max'', 0)]" by simp
next
  have scan: "(\<exists>st'. process_files
       \<lparr>db = \<lparr>products = Some [], models = Some [], key_len = Some []\<rparr>,
        key_len_min = 2 ^ 32, key_len_max = 0, key = []\<rparr> files = Inr st') \<longleftrightarrow>
      scan_ok [] [] (all_lines files)"
    by (rule scan_files_no_key [OF assms]) simp_all
  have gen: "(\<exists>d. generate hw_db files = Inr d) \<longleftrightarrow>
      files \<noteq> [] \<and> (\<exists>st'. process_files
       \<lparr>db = \<lparr>products = Some [], models = Some [], key_len = Some []\<rparr>,
        key_len_min = 2 ^ 32, key_len_max = 0, key = []\<rparr> files = Inr st')"
  proof
    assume "\<exists>d. generate hw_db files = Inr d"
    then obtain d where g: "generate hw_db files = Inr d" ..
    then have "files \<noteq> []" by (auto simp: generate_def)
    with generate_Inr [OF g] show "files \<noteq> [] \<and> (\<exists>st'. process_files
       \<lparr>db = \<lparr>products = Some [], models = Some [], key_len = Some []\<rparr>,
        key_len_min = 2 ^ 32, key_len_max = 0, key = []\<rparr> files = Inr st')"
      by blast
  next
    assume "files \<noteq> [] \<and> (\<exists>st'. process_files
       \<lparr>db = \<lparr>products = Some [], models = Some [], key_len = Some []\<rparr>,
        key_len_min = 2 ^ 32, key_len_max = 0, key = []\<rparr> files = Inr st')"
    then obtain st' where "files \<noteq> []" and "process_files
       \<lparr>db = \<lparr>products = Some [], models = Some [], key_len = Some []\<rparr>,
        key_len_min = 2 ^ 32, key_len_max = 0, key = []\<rparr> files = Inr st'"
      by blast
    from generate_of_scan [OF this] show "\<exists>d. generate hw_db files = Inr d" by blast
  qed
  have "scan_ok [] [] (all_lines files) \<longleftrightarrow>
      list_all (\<lambda>l. startswith l ''ID_'' \<longrightarrow> CHR ''='' \<in> set l) (all_lines files) \<and>
      length (filter product_line (all_lines files)) \<le> 1 \<and>
      length (filter model_line (all_lines files)) \<le> 1"
    by (simp add: scan_ok_def empty_key_count_def)
  with scan gen show "(\<exists>d. generate hw_db files = Inr d) \<longleftrightarrow>
        files \<noteq> [] \<and>
        list_all (\<lambda>l. startswith l ''ID_'' \<longrightarrow> CHR ''='' \<in> set l) (all_lines files) \<and>
        length (filter product_line (all_lines files)) \<le> 1 \<and>
        length (filter model_line (all_lines files)) \<le> 1"
    by simp
qed

text \<open>
  Without a key line the run need not complete: the one line \<^verbatim>\<open>ID_X\<close> ends it with the
  unpacking error, and two files that each hold one model line end it with the integrity
  error, both lines having the empty key.
\<close>

theorem no_key_line_counterexample:
  "lines_of ''ID_X'' = [''ID_X''] \<and> \<not> endswith ''ID_X'' ''*'' \<and>
   generate None [''ID_X''] = Inl ValueError \<and>
   generate None [''ID_MODEL_FROM_DATABASE=a'', ''ID_MODEL_FROM_DATABASE=b''] = Inl IntegrityError"
  by code_simp

text \<open>The theorem on two files without a key line, with one model line, one product line
  and one other attribute line.\<close>

theorem no_key_line_bounds_witness:
  "list_all (\<lambda>c. list_all (\<lambda>l. \<not> endswith l ''*'') (lines_of c))
     [''# comment'' @ [CHR 0x0A] @ '' ID_MODEL_FROM_DATABASE=x'' @ [CHR 0x0A] @
        ''ID_VENDOR_FROM_DATABASE=w'', ''ID_PRODUCT_FROM_DATABASE=p''] \<and>
   all_lines
     [''# comment'' @ [CHR 0x0A] @ '' ID_MODEL_FROM_DATABASE=x'' @ [CHR 0x0A] @
        ''ID_VENDOR_FROM_DATABASE=w'', ''ID_PRODUCT_FROM_DATABASE=p''] =
     [''ID_MODEL_FROM_DATABASE=x'', ''ID_VENDOR_FROM_DATABASE=w'', ''ID_PRODUCT_FROM_DATABASE=p''] \<and>
   (\<exists>d. generate None
     [''# comment'' @ [CHR 0x0A] @ '' ID_MODEL_FROM_DATABASE=x'' @ [CHR 0x0A] @
        ''ID_VENDOR_FROM_DATABASE=w'', ''ID_PRODUCT_FROM_DATABASE=p''] = Inr d \<and>
      key_len d = Some [(''min'', 4294967296), (''max'', 0)]) \<and>
   generate None
     [''# comment'' @ [CHR 0x0A] @ '' ID_MODEL_FROM_DATABASE=x'' @ [CHR 0x0A] @
        ''ID_VENDOR_FROM_DATABASE=w'', ''ID_PRODUCT_FROM_DATABASE=p''] =
     Inr \<lparr>products = Some [([], ''p'')], models = Some [([], ''x'')],
          key_len = Some [(''min'', 4294967296), (''max'', 0)]\<rparr>"
proof -
  have h: "list_all (\<lambda>c. list_all (\<lambda>l. \<not> endswith l ''*'') (lines_of c))
     [''# comment'' @ [CHR 0x0A] @ '' ID_MODEL_FROM_DATABASE=x'' @ [CHR 0x0A] @
        ''ID_VENDOR_FROM_DATABASE=w'', ''ID_PRODUCT_FROM_DATABASE=p'']"
    by code_simp
  have al: "all_lines
     [''# comment'' @ [CHR 0x0A] @ '' ID_MODEL_FROM_DATABASE=x'' @ [CHR 0x0A] @
        ''ID_VENDOR_FROM_DATABASE=w'', ''ID_PRODUCT_FROM_DATABASE=p''] =
     [''ID_MODEL_FROM_DATABASE=x'', ''ID_VENDOR_FROM_DATABASE=w'', ''ID_PRODUCT_FROM_DATABASE=p'']"
    by code_simp
  have ok: "list_all (\<lambda>l. startswith l ''ID_'' \<longrightarrow> CHR ''='' \<in> set l)
       [''ID_MODEL_FROM_DATABASE=x'', ''ID_VENDOR_FROM_DATABASE=w'', ''ID_PRODUCT_FROM_DATABASE=p''] \<and>
     length (filter product_line
       [''ID_MODEL_FROM_DATABASE=x'', ''ID_VENDOR_FROM_DATABASE=w'', ''ID_PRODUCT_FROM_DATABASE=p'']) \<le> 1 \<and>
     length (filter model_line
       [''ID_MODEL_FROM_DATABASE=x'', ''ID_VENDOR_FROM_DATABASE=w'', ''ID_PRODUCT_FROM_DATABASE=p'']) \<le> 1"
    by code_simp
  have g: "generate None
     [''# comment'' @ [CHR 0x0A] @ '' ID_MODEL_FROM_DATABASE=x'' @ [CHR 0x0A] @
        ''ID_VENDOR_FROM_DATABASE=w'', ''ID_PRODUCT_FROM_DATABASE=p''] =
     Inr \<lparr>products = Some [([], ''p'')], models = Some [([], ''x'')],
          key_len = Some [(''min'', 4294967296), (''max'', 0)]\<rparr>"
    by code_simp
  from no_key_line_bounds [OF h, of None] ok
  have "\<exists>d. generate None
     [''# comment'' @ [CHR 0x0A] @ '' ID_MODEL_FROM_DATABASE=x'' @ [CHR 0x0A] @
        ''ID_VENDOR_FROM_DATABASE=w'', ''ID_PRODUCT_FROM_DATABASE=p''] = Inr d \<and>
      key_len d = Some [(''min'', 4294967296), (''max'', 0)]"
    unfolding al by auto
  with h al g show ?thesis by blast
qed

subsection \<open>Attribute lines before the first key line\<close>

text \<open>
  Claim C5, as amended. A product or model line that comes before any key line of its file
  (only lines that are not key lines were processed since the key was set to the empty
  string) raises no parse failure: it inserts its row under the empty string as key when
  its table has no row with the empty key, and ends the run with the integrity error
  when it has one.
\<close>

theorem attribute_before_key_line:
  assumes "list_all (\<lambda>l. \<not> endswith l ''*'') pre"
    and "process_lines (st\<lparr>key := []\<rparr>) pre = Inr st1"
    and "products (db st1) = Some ps" and "models (db st1) = Some ms"
    and "\<not> endswith v ''*''"
  shows "process_line st1 (''ID_PRODUCT_FROM_DATABASE='' @ v) =
     (if map_of ps [] = None
      then Inr (st1\<lparr>db := (db st1)\<lparr>products := Some (ps @ [([], strip v)])\<rparr>\<rparr>)
      else Inl IntegrityError) \<and>
   process_line st1 (''ID_MODEL_FROM_DATABASE='' @ v) =
     (if map_of ms [] = None
      then Inr (st1\<lparr>db := (db st1)\<lparr>models := Some (ms @ [([], strip v)])\<rparr>\<rparr>)
      else Inl IntegrityError)"
proof -
  from process_lines_nonkey_vars [OF assms(1,2)] have key: "strip (key st1) = []"
    by (simp add: strip_Nil)
  have np: "\<not> endswith (''ID_PRODUCT_FROM_DATABASE='' @ v) ''*''"
    by (rule endswith_append_star [OF assms(5)]) simp_all
  have nm: "\<not> endswith (''ID_MODEL_FROM_DATABASE='' @ v) ''*''"
    by (rule endswith_append_star [OF assms(5)]) simp_all
  have "process_line st1 (''ID_PRODUCT_FROM_DATABASE='' @ v) =
     (if map_of ps [] = None
      then Inr (st1\<lparr>db := (db st1)\<lparr>products := Some (ps @ [([], strip v)])\<rparr>\<rparr>)
      else Inl IntegrityError)"
    unfolding process_line_product [OF np] insert_products_Some [OF assms(3)] key by simp
  moreover have "process_line st1 (''ID_MODEL_FROM_DATABASE='' @ v) =
     (if map_of ms [] = None
      then Inr (st1\<lparr>db := (db st1)\<lparr>models := Some (ms @ [([], strip v)])\<rparr>\<rparr>)
      else Inl IntegrityError)"
    unfolding process_line_model [OF nm] insert_models_Some [OF assms(4)] key by simp
  ultimately show ?thesis by (rule conjI)
qed

text \<open>A file whose first line is a product line: the run completes and the products
  table has the row of the empty key.\<close>

theorem attribute_before_key_counterexample:
  "generate None [''ID_PRODUCT_FROM_DATABASE=Acme Widget'' @ [CHR 0x0A] @ ''ab*''] =
     Inr \<lparr>products = Some [([], ''Acme Widget'')], models = Some [],
          key_len = Some [(''min'', 2), (''max'', 2)]\<rparr>"
  by code_simp

text \<open>The theorem after one ignored line, with a models table that has the empty key and
  a products table that does not.\<close>

theorem attribute_before_key_line_witness:
  "list_all (\<lambda>l. \<not> endswith l ''*'') [''text''] \<and>
   process_lines
     (\<lparr>db = \<lparr>products = Some [], models = Some [([], ''x'')], key_len = Some []\<rparr>,
       key_len_min = 2, key_len_max = 3, key = ''abc''\<rparr>\<lparr>key := []\<rparr>) [''text''] =
     Inr \<lparr>db = \<lparr>products = Some [], models = Some [([], ''x'')], key_len = Some []\<rparr>,
       key_len_min = 2, key_len_max = 3, key = []\<rparr> \<and>
   \<not> endswith ''y'' ''*'' \<and>
   process_line
     \<lparr>db = \<lparr>products = Some [], models = Some [([], ''x'')], key_len = Some []\<rparr>,
       key_len_min = 2, key_len_max = 3, key = []\<rparr> ''ID_PRODUCT_FROM_DATABASE=y'' =
     Inr \<lparr>db = \<lparr>products = Some [([], ''y'')], models = Some [([], ''x'')], key_len = Some []\<rparr>,
       key_len_min = 2, key_len_max = 3, key = []\<rparr> \<and>
   process_line
     \<lparr>db = \<lparr>products = Some [], models = Some [([], ''x'')], key_len = Some []\<rparr>,
       key_len_min = 2, key_len_max = 3, key = []\<rparr> ''ID_MODEL_FROM_DATABASE=y'' =
     Inl IntegrityError"
proof -
  have h1: "list_all (\<lambda>l. \<not> endswith l ''*'') [''text'']" by code_simp
  have h2: "process_lines
     (\<lparr>db = \<lparr>products = Some [], models = Some [([], ''x'')], key_len = Some []\<rparr>,
       key_len_min = 2, key_len_max = 3, key = ''abc''\<rparr>\<lparr>key := []\<rparr>) [''text''] =
     Inr \<lparr>db = \<lparr>products = Some [], models = Some [([], ''x'')], key_len = Some []\<rparr>,
       key_len_min = 2, key_len_max = 3, key = []\<rparr>" by code_simp
  have h5: "\<not> endswith ''y'' ''*''" by code_simp
  have s: "strip ''y'' = ''y''" by code_simp
  from attribute_before_key_line [OF h1 h2 _ _ h5, of "[]" "[([], ''x'')]"]
  show ?thesis using h1 h2 h5 s by simp
qed

subsection \<open>Attribute lines without an equals sign\<close>

lemma dropWhile_keeps: "x \<in> set xs \<Longrightarrow> \<not> P x \<Longrightarrow> x \<in> set (dropWhile P xs)"
  by (induction xs) auto

lemma strip_keeps:
  assumes "x \<in> set s" and "\<not> isspace x"
  shows "x \<in> set (strip s)"
proof -
  from assms have "x \<in> set (rev (dropWhile isspace s))" by (simp add: dropWhile_keeps)
  from this assms(2) have "x \<in> set (dropWhile isspace (rev (dropWhile isspace s)))"
    by (rule dropWhile_keeps)
  then show ?thesis by (simp add: strip_def)
qed

text \<open>A line of the file that itself starts with \<^verbatim>\<open>ID_\<close> is not a comment and still
  starts with \<^verbatim>\<open>ID_\<close> once trimmed.\<close>

lemma raw_ID_line:
  assumes "startswith raw ''ID_''"
  shows "\<not> startswith raw ''#'' \<and> startswith (strip raw) ''ID_''"
proof -
  from assms obtain t where raw: "raw = ''ID_'' @ t"
    by (metis append_take_drop_id startswith_def)
  have sp: "\<not> isspace (CHR ''I'')" "\<not> isspace (CHR ''_'')" by (simp_all add: isspace_def)
  have "rev raw = rev t @ CHR ''_'' # ''DI''" by (simp add: raw)
  with sp(2) have "dropWhile isspace (rev raw) = dropWhile isspace (rev t) @ CHR ''_'' # ''DI''"
    by (simp add: dropWhile_append3)
  moreover from sp(1) have "dropWhile isspace raw = raw" by (simp add: raw)
  ultimately have "strip raw = ''ID_'' @ rev (dropWhile isspace (rev t))"
    by (simp add: strip_def)
  then show ?thesis by (simp add: startswith_def raw)
qed

lemma lines_of_member:
  assumes "raw \<in> set (split (CHR 0x0A) contents)" and "strip raw \<noteq> []"
    and "\<not> startswith raw ''#''"
  shows "strip raw \<in> set (lines_of contents)"
  using assms by (auto simp: lines_of_def)

lemma process_lines_fail:
  assumes "l \<in> set ls" and "\<And>st. process_line st l = Inl err"
  shows "\<exists>e. process_lines st ls = Inl e"
  using assms(1)
proof (induction ls arbitrary: st)
  case Nil
  then show ?case by simp
next
  case (Cons x xs)
  show ?case
  proof (cases "process_line st x")
    case (Inl e)
    then show ?thesis by simp
  next
    case (Inr st1)
    with assms(2) [of st] have "x \<noteq> l" by auto
    with Cons.prems have "l \<in> set xs" by simp
    from Cons.IH [OF this, of st1] Inr show ?thesis by simp
  qed
qed

lemma process_files_fail:
  assumes "c \<in> set files" and "\<And>st. \<exists>e. process_file st c = Inl e"
  shows "\<exists>e. process_files st files = Inl e"
  using assms(1)
proof (induction files arbitrary: st)
  case Nil
  then show ?case by simp
next
  case (Cons x xs)
  show ?case
  proof (cases "process_file st x")
    case (Inl e)
    then show ?thesis by simp
  next
    case (Inr st1)
    with assms(2) [of st] have "x \<noteq> c" by auto
    with Cons.prems have "c \<in> set xs" by simp
    from Cons.IH [OF this, of st1] Inr show ?thesis by simp
  qed
qed

text \<open>
  Claim C6, as amended. Take a line of an input file that does not start with \<^verbatim>\<open>#\<close> and
  whose trimmed text starts with \<^verbatim>\<open>ID_\<close> and does not end with \<^verbatim>\<open>*\<close>. If it has no \<^verbatim>\<open>=\<close>,
  its step raises the unpacking error in every state and the run ends with an exception.
  If it has a \<^verbatim>\<open>=\<close>, its step never raises the unpacking error.
\<close>

theorem missing_equals_aborts:
  assumes "contents \<in> set files" and "raw \<in> set (split (CHR 0x0A) contents)"
    and "\<not> startswith raw ''#''" and "startswith (strip raw) ''ID_''"
    and "\<not> endswith (strip raw) ''*''"
  shows "(CHR ''='' \<notin> set raw \<longrightarrow>
            process_line st (strip raw) = Inl ValueError \<and>
            (\<exists>e. generate hw_db files = Inl e)) \<and>
     (CHR ''='' \<in> set raw \<longrightarrow> process_line st (strip raw) \<noteq> Inl ValueError)"
proof (intro conjI impI)
  assume "CHR ''='' \<notin> set raw"
  with set_strip [of raw] have no: "CHR ''='' \<notin> set (strip raw)" by blast
  from process_line_no_eq [OF assms(5,4) no]
  show "process_line st (strip raw) = Inl ValueError" .
  from assms(4) have "strip raw \<noteq> []" by (auto simp: startswith_def)
  from lines_of_member [OF assms(2) this assms(3)]
  have mem: "strip raw \<in> set (lines_of contents)" .
  have "\<exists>e. process_file s contents = Inl e" for s
    unfolding process_file_def
    by (rule process_lines_fail [OF mem]) (rule process_line_no_eq [OF assms(5,4) no])
  from process_files_fail [OF assms(1) this]
  obtain e where "process_files
       \<lparr>db = \<lparr>products = Some [], models = Some [], key_len = Some []\<rparr>,
        key_len_min = 2 ^ 32, key_len_max = 0, key = []\<rparr> files = Inl e"
    by blast
  then show "\<exists>e. generate hw_db files = Inl e"
    by (simp add: generate_def create_tables_fresh)
next
  assume "CHR ''='' \<in> set raw"
  moreover have "\<not> isspace (CHR ''='')" by (simp add: isspace_def)
  ultimately have "CHR ''='' \<in> set (strip raw)" by (rule strip_keeps)
  then show "process_line st (strip raw) \<noteq> Inl ValueError"
    by (rule process_line_eq_no_ValueError)
qed

text \<open>The line \<^verbatim>\<open>ID_X*\<close> starts with \<^verbatim>\<open>ID_\<close> and has no \<^verbatim>\<open>=\<close>, and the run completes: the
  test for a key line comes first, and the line sets the key \<^verbatim>\<open>ID_X\<close>.\<close>

theorem missing_equals_counterexample:
  "startswith ''ID_X*'' ''ID_'' \<and> CHR ''='' \<notin> set ''ID_X*'' \<and>
   generate None [''ID_X*''] =
     Inr \<lparr>products = Some [], models = Some [],
          key_len = Some [(''min'', 4), (''max'', 4)]\<rparr>"
  by code_simp

text \<open>The theorem on an indented model line without \<^verbatim>\<open>=\<close>.\<close>

theorem missing_equals_aborts_witness:
  "''ab*'' @ [CHR 0x0A] @ '' ID_MODEL_FROM_DATABASE'' \<in>
     set [''ab*'' @ [CHR 0x0A] @ '' ID_MODEL_FROM_DATABASE''] \<and>
   '' ID_MODEL_FROM_DATABASE'' \<in>
     set (split (CHR 0x0A) (''ab*'' @ [CHR 0x0A] @ '' ID_MODEL_FROM_DATABASE'')) \<and>
   \<not> startswith '' ID_MODEL_FROM_DATABASE'' ''#'' \<and>
   startswith (strip '' ID_MODEL_FROM_DATABASE'') ''ID_'' \<and>
   \<not> endswith (strip '' ID_MODEL_FROM_DATABASE'') ''*'' \<and>
   CHR ''='' \<notin> set '' ID_MODEL_FROM_DATABASE'' \<and>
   process_line
     \<lparr>db = \<lparr>products = Some [], models = Some [], key_len = Some []\<rparr>,
      key_len_min = 2, key_len_max = 2, key = ''ab''\<rparr> (strip '' ID_MODEL_FROM_DATABASE'') =
     Inl ValueError \<and>
   generate None [''ab*'' @ [CHR 0x0A] @ '' ID_MODEL_FROM_DATABASE''] = Inl ValueError"
proof -
  have h1: "''ab*'' @ [CHR 0x0A] @ '' ID_MODEL_FROM_DATABASE'' \<in>
     set [''ab*'' @ [CHR 0x0A] @ '' ID_MODEL_FROM_DATABASE'']" by simp
  have h2: "'' ID_MODEL_FROM_DATABASE'' \<in>
     set (split (CHR 0x0A) (''ab*'' @ [CHR 0x0A] @ '' ID_MODEL_FROM_DATABASE''))" by code_simp
  have h3: "\<not> startswith '' ID_MODEL_FROM_DATABASE'' ''#''" by code_simp
  have h4: "startswith (strip '' ID_MODEL_FROM_DATABASE'') ''ID_''" by code_simp
  have h5: "\<not> endswith (strip '' ID_MODEL_FROM_DATABASE'') ''*''" by code_simp
  have h6: "CHR ''='' \<notin> set '' ID_MODEL_FROM_DATABASE''" by simp
  have g: "generate None [''ab*'' @ [CHR 0x0A] @ '' ID_MODEL_FROM_DATABASE''] = Inl ValueError"
    by code_simp
  from missing_equals_aborts [OF h1 h2 h3 h4 h5, of
      "\<lparr>db = \<lparr>products = Some [], models = Some [], key_len = Some []\<rparr>,
        key_len_min = 2, key_len_max = 2, key = ''ab''\<rparr>" None] h6
  have "process_line
     \<lparr>db = \<lparr>products = Some [], models = Some [], key_len = Some []\<rparr>,
      key_len_min = 2, key_len_max = 2, key = ''ab''\<rparr> (strip '' ID_MODEL_FROM_DATABASE'') =
     Inl ValueError"
    by blast
  with h1 h2 h3 h4 h5 h6 g show ?thesis by blast
qed

subsection \<open>Blank lines and comment lines\<close>

lemma lines_of_skip_middle:
  assumes "CHR 0x0A \<notin> set l" and "strip l = [] \<or> startswith l ''#''"
  shows "lines_of (a @ CHR 0x0A # l @ CHR 0x0A # b) = lines_of (a @ CHR 0x0A # b)"
proof -
  have "split (CHR 0x0A) (a @ CHR 0x0A # l @ CHR 0x0A # b) =
      split (CHR 0x0A) a @ [l] @ split (CHR 0x0A) b"
    by (simp only: split_append split_no_sep [OF assms(1)])
  moreover have "split (CHR 0x0A) (a @ CHR 0x0A # b) = split (CHR 0x0A) a @ split (CHR 0x0A) b"
    by (rule split_append)
  ultimately show ?thesis using assms(2) by (auto simp: lines_of_def)
qed

lemma lines_of_skip_first:
  assumes "CHR 0x0A \<notin> set l" and "strip l = [] \<or> startswith l ''#''"
  shows "lines_of (l @ CHR 0x0A # b) = lines_of b"
proof -
  have "split (CHR 0x0A) (l @ CHR 0x0A # b) = [l] @ split (CHR 0x0A) b"
    by (simp only: split_append split_no_sep [OF assms(1)])
  then show ?thesis using assms(2) by (auto simp: lines_of_def)
qed

lemma lines_of_skip_last:
  assumes "CHR 0x0A \<notin> set l" and "strip l = [] \<or> startswith l ''#''"
  shows "lines_of (a @ CHR 0x0A # l) = lines_of a"
proof -
  have "split (CHR 0x0A) (a @ CHR 0x0A # l) = split (CHR 0x0A) a @ [l]"
    by (simp only: split_append split_no_sep [OF assms(1)])
  then show ?thesis using assms(2) by (auto simp: lines_of_def)
qed

lemma lines_of_skip_only:
  assumes "CHR 0x0A \<notin> set l" and "strip l = [] \<or> startswith l ''#''"
  shows "lines_of l = lines_of []"
  using assms(2) by (auto simp: lines_of_def split_no_sep [OF assms(1)] strip_Nil)

lemma process_files_append:
  "process_files st (xs @ ys) =
     (case process_files st xs of Inl e \<Rightarrow> Inl e | Inr st' \<Rightarrow> process_files st' ys)"
  by (induction xs arbitrary: st) (simp_all split: sum.split)

lemma process_file_lines_of:
  "lines_of c = lines_of c' \<Longrightarrow> process_file st c = process_file st c'"
  by (simp add: process_file_def)

lemma generate_lines_of:
  assumes "lines_of c = lines_of c'"
  shows "generate hw_db (fs1 @ c # fs2) = generate hw_db (fs1 @ c' # fs2)"
proof -
  have "process_files st (fs1 @ c # fs2) = process_files st (fs1 @ c' # fs2)" for st
    by (simp add: process_files_append process_file_lines_of [OF assms] split: sum.split)
  then show ?thesis by (simp add: generate_def create_tables_fresh)
qed

text \<open>
  Claim C8. A line \<open>l\<close> that is blank (empty once trimmed) or starts with \<^verbatim>\<open>#\<close> is a no-op
  at every position, between two parts of a file, as its first line, as its last or as
  its only line: the
  file with the line and the file without it have the same lines after the filter, so the
  scan of the file ends in the same state from every state (same rows, same bounds, same
  key), and the run over any list of files that holds the file has the same outcome.
\<close>

theorem skipped_line_is_noop:
  assumes "CHR 0x0A \<notin> set l" and "strip l = [] \<or> startswith l ''#''"
    and "(c, c') \<in> {(a @ CHR 0x0A # l @ CHR 0x0A # b, a @ CHR 0x0A # b),
                     (l @ CHR 0x0A # b, b), (a @ CHR 0x0A # l, a), (l, [])}"
  shows "lines_of c = lines_of c' \<and> process_file st c = process_file st c' \<and>
     generate hw_db (fs1 @ c # fs2) = generate hw_db (fs1 @ c' # fs2)"
proof -
  from assms(3) lines_of_skip_middle [OF assms(1,2)] lines_of_skip_first [OF assms(1,2)]
    lines_of_skip_last [OF assms(1,2)] lines_of_skip_only [OF assms(1,2)]
  have eq: "lines_of c = lines_of c'" by auto
  from eq process_file_lines_of [OF eq] generate_lines_of [OF eq] show ?thesis by simp
qed

text \<open>The theorem on a comment line between a key line and a model line: the model line
  is stored under the key of the key line.\<close>

theorem skipped_line_is_noop_witness:
  "CHR 0x0A \<notin> set ''# ID_MODEL_FROM_DATABASE=no*'' \<and>
   startswith ''# ID_MODEL_FROM_DATABASE=no*'' ''#'' \<and>
   generate None [''ab*'' @ CHR 0x0A # ''# ID_MODEL_FROM_DATABASE=no*'' @ CHR 0x0A #
       ''ID_MODEL_FROM_DATABASE=x''] =
     Inr \<lparr>products = Some [], models = Some [(''ab'', ''x'')],
          key_len = Some [(''min'', 2), (''max'', 2)]\<rparr>"
proof -
  have h1: "CHR 0x0A \<notin> set ''# ID_MODEL_FROM_DATABASE=no*''" by simp
  have h2: "startswith ''# ID_MODEL_FROM_DATABASE=no*'' ''#''" by code_simp
  have g: "generate None [''ab*'' @ CHR 0x0A # ''ID_MODEL_FROM_DATABASE=x''] =
     Inr \<lparr>products = Some [], models = Some [(''ab'', ''x'')],
          key_len = Some [(''min'', 2), (''max'', 2)]\<rparr>"
    by code_simp
  from skipped_line_is_noop [OF h1 disjI2 [OF h2], of
      "''ab*'' @ CHR 0x0A # ''# ID_MODEL_FROM_DATABASE=no*'' @ CHR 0x0A # ''ID_MODEL_FROM_DATABASE=x''"
      "''ab*'' @ CHR 0x0A # ''ID_MODEL_FROM_DATABASE=x''" "''ab*''" "''ID_MODEL_FROM_DATABASE=x''"
      "\<lparr>db = \<lparr>products = None, models = None, key_len = None\<rparr>,
        key_len_min = 0, key_len_max = 0, key = []\<rparr>" None "[]" "[]"]
  have "generate None [''ab*'' @ CHR 0x0A # ''# ID_MODEL_FROM_DATABASE=no*'' @ CHR 0x0A #
       ''ID_MODEL_FROM_DATABASE=x''] = generate None [''ab*'' @ CHR 0x0A # ''ID_MODEL_FROM_DATABASE=x'']"
    by simp
  with h1 h2 g show ?thesis by simp
qed

subsection \<open>The key at the start of a file\<close>

lemma process_line_rows_mono:
  assumes "process_line st l = Inr st'"
  shows "set (rows_of (products (db st))) \<subseteq> set (rows_of (products (db st'))) \<and>
     set (rows_of (models (db st))) \<subseteq> set (rows_of (models (db st')))"
proof (cases "endswith l ''*''")
  case True
  from process_line_keyline [OF True, of st] assms show ?thesis by auto
next
  case False
  from process_line_nonkey [OF False assms] show ?thesis
    by (auto simp: rows_of_def)
qed

lemma process_lines_rows_mono:
  "process_lines st ls = Inr st' \<Longrightarrow>
     set (rows_of (products (db st))) \<subseteq> set (rows_of (products (db st'))) \<and>
     set (rows_of (models (db st))) \<subseteq> set (rows_of (models (db st')))"
proof (induction ls arbitrary: st)
  case Nil
  then show ?case by simp
next
  case (Cons l ls)
  from Cons.prems obtain st1 where
    l: "process_line st l = Inr st1" and ls: "process_lines st1 ls = Inr st'"
    by (auto split: sum.splits)
  from process_line_rows_mono [OF l] Cons.IH [OF ls] show ?case by blast
qed

lemma process_files_rows_mono:
  "process_files st files = Inr st' \<Longrightarrow>
     set (rows_of (products (db st))) \<subseteq> set (rows_of (products (db st'))) \<and>
     set (rows_of (models (db st))) \<subseteq> set (rows_of (models (db st')))"
proof (induction files arbitrary: st)
  case Nil
  then show ?case by simp
next
  case (Cons c cs)
  from Cons.prems obtain st1 where
    c: "process_lines (st\<lparr>key := []\<rparr>) (lines_of c) = Inr st1"
    and cs: "process_files st1 cs = Inr st'"
    by (auto simp: process_file_def split: sum.splits)
  from process_lines_rows_mono [OF c] Cons.IH [OF cs] show ?case by auto
qed

text \<open>
  Claim C10, as amended. The key is the empty string at the start of each file: what the
  scan of a file does is the same whatever key the files before it left; and in a run
  that completes, a product line (a model line) that comes before the first key line of
  its own file, after any files, has its row in the products (models) table under the
  empty string as key. A run that does not complete records nothing.
\<close>

theorem key_reset_per_file:
  assumes "lines_of c = pre @ line # post" and "list_all (\<lambda>l. \<not> endswith l ''*'') pre"
    and "line = ''ID_PRODUCT_FROM_DATABASE='' @ v \<and> tbl = products \<or>
         line = ''ID_MODEL_FROM_DATABASE='' @ v \<and> tbl = models"
    and "\<not> endswith v ''*''"
    and "generate hw_db (before @ c # after) = Inr d"
  shows "process_file (st\<lparr>key := k\<rparr>) c' = process_file st c' \<and>
     ([], strip v) \<in> set (rows_of (tbl d))"
proof
  show "process_file (st\<lparr>key := k\<rparr>) c' = process_file st c'"
    by (simp add: process_file_def)
next
  from generate_Inr [OF assms(5)] obtain fin where
    fin: "process_files
       \<lparr>db = \<lparr>products = Some [], models = Some [], key_len = Some []\<rparr>,
        key_len_min = 2 ^ 32, key_len_max = 0, key = []\<rparr> (before @ c # after) = Inr fin"
    and d: "d = (db fin)\<lparr>key_len := Some [(''min'', key_len_min fin), (''max'', key_len_max fin)]\<rparr>"
    by blast
  from fin obtain sa sb where
    c: "process_file sa c = Inr sb" and after: "process_files sb after = Inr fin"
    by (auto simp: process_files_append split: sum.splits)
  from c assms(1) obtain s1 s2 where
    pre: "process_lines (sa\<lparr>key := []\<rparr>) pre = Inr s1"
    and line: "process_line s1 line = Inr s2"
    and post: "process_lines s2 post = Inr sb"
    by (auto simp: process_file_def process_lines_append split: sum.splits)
  from process_lines_nonkey_vars [OF assms(2) pre] have key: "strip (key s1) = []"
    by (simp add: strip_Nil)
  have np: "\<not> endswith (''ID_PRODUCT_FROM_DATABASE='' @ v) ''*''"
    by (rule endswith_append_star [OF assms(4)]) simp_all
  have nm: "\<not> endswith (''ID_MODEL_FROM_DATABASE='' @ v) ''*''"
    by (rule endswith_append_star [OF assms(4)]) simp_all
  from assms(3) have "([], strip v) \<in> set (rows_of (tbl (db s2)))"
  proof (elim disjE conjE)
    assume l: "line = ''ID_PRODUCT_FROM_DATABASE='' @ v" and t: "tbl = products"
    from line have "insert_products [] (strip v) (db s1) = Inr (db s2)"
      unfolding l process_line_product [OF np] key by (auto split: sum.splits)
    from insert_products_Inr [OF this] show ?thesis by (auto simp: t rows_of_def)
  next
    assume l: "line = ''ID_MODEL_FROM_DATABASE='' @ v" and t: "tbl = models"
    from line have "insert_models [] (strip v) (db s1) = Inr (db s2)"
      unfolding l process_line_model [OF nm] key by (auto split: sum.splits)
    from insert_models_Inr [OF this] show ?thesis by (auto simp: t rows_of_def)
  qed
  moreover from assms(3) process_lines_rows_mono [OF post] process_files_rows_mono [OF after]
  have "set (rows_of (tbl (db s2))) \<subseteq> set (rows_of (tbl (db fin)))" by auto
  moreover from assms(3) have "rows_of (tbl d) = rows_of (tbl (db fin))" by (auto simp: d)
  ultimately show "([], strip v) \<in> set (rows_of (tbl d))" by auto
qed

text \<open>
  The claim as stated fails when the run does not complete. The second file has one line,
  a product line before any key line of its file; the products table already has a row
  with the empty key from the first file, so the insertion raises the integrity error and
  no row of the line is recorded.
\<close>

theorem key_reset_counterexample:
  "lines_of ''ID_PRODUCT_FROM_DATABASE=b'' = [''ID_PRODUCT_FROM_DATABASE=b''] \<and>
   generate None
     [''ID_PRODUCT_FROM_DATABASE=a'' @ [CHR 0x0A] @ ''ab*'', ''ID_PRODUCT_FROM_DATABASE=b''] =
     Inl IntegrityError"
  by code_simp

text \<open>The theorem on a second file whose model line comes before its first key line, after
  a first file with the key line \<^verbatim>\<open>ab*\<close>.\<close>

theorem key_reset_per_file_witness:
  "lines_of (''text'' @ [CHR 0x0A] @ '' ID_MODEL_FROM_DATABASE= Widget '' @ [CHR 0x0A] @ ''cd*'') =
     [''text''] @ ''ID_MODEL_FROM_DATABASE= Widget'' # [''cd*''] \<and>
   list_all (\<lambda>l. \<not> endswith l ''*'') [''text''] \<and>
   \<not> endswith '' Widget'' ''*'' \<and>
   generate None ([''ab*'' @ [CHR 0x0A] @ ''ID_MODEL_FROM_DATABASE=x''] @
       (''text'' @ [CHR 0x0A] @ '' ID_MODEL_FROM_DATABASE= Widget '' @ [CHR 0x0A] @ ''cd*'') # []) =
     Inr \<lparr>products = Some [], models = Some [(''ab'', ''x''), ([], ''Widget'')],
          key_len = Some [(''min'', 2), (''max'', 2)]\<rparr> \<and>
   ([], strip '' Widget'') \<in> set (rows_of (models
     \<lparr>products = Some [], models = Some [(''ab'', ''x''), ([], ''Widget'')],
          key_len = Some [(''min'', 2), (''max'', 2)]\<rparr>))"
proof -
  have h1: "lines_of (''text'' @ [CHR 0x0A] @ '' ID_MODEL_FROM_DATABASE= Widget '' @ [CHR 0x0A] @ ''cd*'') =
     [''text''] @ (''ID_MODEL_FROM_DATABASE='' @ '' Widget'') # [''cd*'']" by code_simp
  have h2: "list_all (\<lambda>l. \<not> endswith l ''*'') [''text'']" by code_simp
  have h4: "\<not> endswith '' Widget'' ''*''" by code_simp
  have h5: "generate None ([''ab*'' @ [CHR 0x0A] @ ''ID_MODEL_FROM_DATABASE=x''] @
       (''text'' @ [CHR 0x0A] @ '' ID_MODEL_FROM_DATABASE= Widget '' @ [CHR 0x0A] @ ''cd*'') # []) =
     Inr \<lparr>products = Some [], models = Some [(''ab'', ''x''), ([], ''Widget'')],
          key_len = Some [(''min'', 2), (''max'', 2)]\<rparr>" by code_simp
  from key_reset_per_file [OF h1 h2 _ h4 h5, where tbl = models
      and st = "\<lparr>db = \<lparr>products = None, models = None, key_len = None\<rparr>,
        key_len_min = 0, key_len_max = 0, key = []\<rparr>" and k = "''ab''" and c' = "[]"]
  have "([], strip '' Widget'') \<in> set (rows_of (models
     \<lparr>products = Some [], models = Some [(''ab'', ''x''), ([], ''Widget'')],
          key_len = Some [(''min'', 2), (''max'', 2)]\<rparr>))"
    by simp
  with h1 h2 h4 h5 show ?thesis by simp
qed

end
